theory Spec2Isabelle
  imports Main
begin

section \<open>Exceptions\<close>

text \<open>
  The Python exceptions that the engine raises, catches or lets through. A call that may
  raise returns a sum: \<open>Inl\<close> carries the exception, \<open>Inr\<close> the value.
  \<open>Exception\<close> stands for any other exception a player may raise.
\<close>

datatype exn =
    KeyboardInterrupt
  | SystemExit
  | ValueError string
  | TypeError string
  | KeyError
  | IndexError
  | TimeoutError
  | Exception string

section \<open>board.py\<close>

datatype FieldState = EMPTY | SHIP | HIT | MISSED

text \<open>\<open>ShotResult.HIT\<close> is written \<open>HIT_result\<close>: \<open>HIT\<close> is the field state.\<close>

datatype ShotResult = MISS | PREVIOUS_MISS | HIT_result | PREVIOUS_HIT | INVALID

record Field =
  state :: FieldState

text \<open>The class attribute \<open>Field._transitions\<close>, a dict.\<close>

definition transitions :: "FieldState \<rightharpoonup> FieldState \<times> ShotResult" where
  "transitions =
     [EMPTY \<mapsto> (MISSED, MISS),
      SHIP \<mapsto> (HIT, HIT_result),
      HIT \<mapsto> (HIT, PREVIOUS_HIT),
      MISSED \<mapsto> (MISSED, PREVIOUS_MISS)]"

definition Field_init :: Field where
  "Field_init = \<lparr>state = EMPTY\<rparr>"

text \<open>
  \<open>Field.drop_bomb\<close>: the dict lookup raises \<open>KeyError\<close> on a missing key, before
  the state is assigned.
\<close>

definition Field_drop_bomb :: "Field \<Rightarrow> (exn + ShotResult) \<times> Field" where
  "Field_drop_bomb f =
     (case transitions (state f) of
        None \<Rightarrow> (Inl KeyError, f)
      | Some (st, result) \<Rightarrow> (Inr result, f\<lparr>state := st\<rparr>))"

text \<open>The results of \<open>n\<close> successive calls of \<open>drop_bomb\<close> on one field.\<close>

fun Field_drop_bombs :: "nat \<Rightarrow> Field \<Rightarrow> (exn + ShotResult) list" where
  "Field_drop_bombs 0 f = []"
| "Field_drop_bombs (Suc n) f =
     (case Field_drop_bomb f of (r, f') \<Rightarrow> r # Field_drop_bombs n f')"

subsection \<open>Python list indexing and slicing\<close>

text \<open>
  \<open>xs[i]\<close> on a list of length \<open>n\<close>: the position read, or \<open>None\<close> for
  \<open>IndexError\<close>. A negative index counts from the end.
\<close>

definition py_index :: "nat \<Rightarrow> int \<Rightarrow> nat option" where
  "py_index n i =
     (if 0 \<le> i \<and> i < int n then Some (nat i)
      else if - int n \<le> i \<and> i < 0 then Some (nat (i + int n))
      else None)"

text \<open>
  \<open>xs[start:stop]\<close> on a list of length \<open>n\<close>: the positions read. A negative bound
  has \<open>n\<close> added, then each bound is clamped to \<open>[0, n]\<close>; slicing never raises.
\<close>

definition py_slice_bound :: "nat \<Rightarrow> int \<Rightarrow> nat" where
  "py_slice_bound n i =
     (if i < 0 then nat (max (i + int n) 0) else nat (min i (int n)))"

definition py_slice :: "nat \<Rightarrow> int \<Rightarrow> int \<Rightarrow> nat list" where
  "py_slice n start stop = [py_slice_bound n start ..< py_slice_bound n stop]"

subsection \<open>Board\<close>

text \<open>
  The grid \<open>_board\<close> is a list of rows of fields, read as \<open>_board[y][x]\<close>. Each
  \<open>Field\<close> object is created once by the constructor and stays in its slot, so a
  reference to a field is its (row, column) position: \<open>_ships\<close> holds such references,
  and a bomb dropped through the grid is seen through them.
\<close>

text \<open>
  The attributes \<open>size\<close> and \<open>_ships\<close> are written \<open>size_B\<close> and
  \<open>ships_B\<close>, and those of the game \<open>size_G\<close> and \<open>ships_G\<close>.
\<close>

type_synonym field_ref = "nat \<times> nat"

record Board =
  size_B :: int
  board :: "Field list list"
  ships_B :: "field_ref list list"
  remaining_ships :: "int list"

definition Board_init :: "int \<Rightarrow> int list \<Rightarrow> Board" where
  "Board_init sz shps =
     \<lparr>size_B = sz,
      board = replicate (nat sz) (replicate (nat sz) Field_init),
      ships_B = [],
      remaining_ships = shps\<rparr>"

definition get_field :: "Board \<Rightarrow> field_ref \<Rightarrow> Field" where
  "get_field b ref = board b ! fst ref ! snd ref"

definition set_field :: "field_ref \<Rightarrow> Field \<Rightarrow> Board \<Rightarrow> Board" where
  "set_field ref f b =
     b\<lparr>board := (board b)[fst ref := (board b ! fst ref)[snd ref := f]]\<rparr>"

definition Board_drop_bomb :: "int \<Rightarrow> int \<Rightarrow> Board \<Rightarrow> (exn + ShotResult) \<times> Board" where
  "Board_drop_bomb x y b =
     (case py_index (length (board b)) y of
        None \<Rightarrow> (Inl (ValueError ''Invalid coordinates''), b)
      | Some r \<Rightarrow>
          (case py_index (length (board b ! r)) x of
             None \<Rightarrow> (Inl (ValueError ''Invalid coordinates''), b)
           | Some c \<Rightarrow>
               (case Field_drop_bomb (get_field b (r, c)) of
                  (result, f) \<Rightarrow> (result, set_field (r, c) f b))))"

text \<open>
  The fields a ship would take, \<open>None\<close> for \<open>IndexError\<close>: a slice of row \<open>y\<close>
  when horizontal, else column \<open>x\<close> of a slice of the rows.
\<close>

definition select_fields :: "int \<Rightarrow> int \<Rightarrow> int \<Rightarrow> bool \<Rightarrow> Board \<Rightarrow> field_ref list option" where
  "select_fields sz x y horizontal b =
     (if horizontal then
        (case py_index (length (board b)) y of
           None \<Rightarrow> None
         | Some r \<Rightarrow> Some (map (\<lambda>c. (r, c)) (py_slice (length (board b ! r)) x (x + sz))))
      else
        those (map (\<lambda>r. map_option (\<lambda>c. (r, c)) (py_index (length (board b ! r)) x))
                 (py_slice (length (board b)) y (y + sz))))"

text \<open>The loop \<open>for field in fields: field.state = FieldState.SHIP\<close>.\<close>

definition mark_ship :: "field_ref list \<Rightarrow> Board \<Rightarrow> Board" where
  "mark_ship flds b =
     fold (\<lambda>ref b'. set_field ref ((get_field b' ref)\<lparr>state := SHIP\<rparr>) b') flds b"

text \<open>
  \<open>place_ship\<close>: \<open>_remaining_ships.remove(size)\<close> comes first, then the fields
  are selected and checked. The first message is written without the number it carries.
\<close>

definition place_ship :: "int \<Rightarrow> int \<Rightarrow> int \<Rightarrow> bool \<Rightarrow> Board \<Rightarrow> (exn + unit) \<times> Board" where
  "place_ship sz x y horizontal b =
     (if sz \<notin> set (remaining_ships b)
      then (Inl (ValueError ''No more ships of this size allowed''), b)
      else
        let b1 = b\<lparr>remaining_ships := remove1 sz (remaining_ships b)\<rparr> in
        (case select_fields sz x y horizontal b1 of
           None \<Rightarrow> (Inl (ValueError ''Not enough space to place ship''), b1)
         | Some flds \<Rightarrow>
             if int (length flds) \<noteq> sz
             then (Inl (ValueError ''Not enough space to place ship''), b1)
             else if list_ex (\<lambda>ref. state (get_field b1 ref) \<noteq> EMPTY) flds
             then (Inl (ValueError ''Trying to place on existing ship''), b1)
             else (Inr (), mark_ship flds (b1\<lparr>ships_B := ships_B b1 @ [flds]\<rparr>))))"

definition still_floating :: "Board \<Rightarrow> bool" where
  "still_floating b =
     list_ex (\<lambda>ship. list_ex (\<lambda>part. state (get_field b part) = SHIP) ship) (ships_B b)"

text \<open>The board after the shots \<open>shots\<close>, in order; a shot that raises changes nothing.\<close>

fun drop_bombs :: "(int \<times> int) list \<Rightarrow> Board \<Rightarrow> Board" where
  "drop_bombs [] b = b"
| "drop_bombs ((x, y) # shots) b = drop_bombs shots (snd (Board_drop_bomb x y b))"

text \<open>
  The boards that exist: a new board, and a board after a call of \<open>place_ship\<close> or
  of \<open>drop_bomb\<close>, whether the call returns or raises.
\<close>

inductive reachable :: "Board \<Rightarrow> bool" where
  init: "reachable (Board_init sz shps)"
| place: "reachable b \<Longrightarrow> reachable (snd (place_ship sz x y horizontal b))"
| bomb: "reachable b \<Longrightarrow> reachable (snd (Board_drop_bomb x y b))"

text \<open>
  The shape of a board: a square grid of its size, and every part of a placed ship is a
  position of the grid whose field is SHIP or HIT.
\<close>

definition board_inv :: "Board \<Rightarrow> bool" where
  "board_inv b =
     (length (board b) = nat (size_B b)
      \<and> (\<forall>r < nat (size_B b). length (board b ! r) = nat (size_B b))
      \<and> (\<forall>ship \<in> set (ships_B b). \<forall>part \<in> set ship.
            fst part < nat (size_B b) \<and> snd part < nat (size_B b)
            \<and> state (get_field b part) \<in> {SHIP, HIT}))"

text \<open>
  What stays of \<open>Board()\<close> under \<open>place_ship\<close> and \<open>drop_bomb\<close>: the size
  12, a grid of 12 rows of 12 fields, and remaining ships among 2, 3, 3, 4, 5.
\<close>

definition default_shape :: "Board \<Rightarrow> bool" where
  "default_shape b =
     (size_B b = 12 \<and> length (board b) = 12
      \<and> list_all (\<lambda>row. length row = 12) (board b)
      \<and> list_all (\<lambda>sz. count_list (remaining_ships b) sz \<le> count_list [2, 3, 3, 4, 5] sz)
           (remaining_ships b))"

section \<open>players.py\<close>

text \<open>
  A player class, over the type \<open>'s\<close> of a player object's own state. A method takes
  the object's state and returns what the call returns or raises, with the state the call
  leaves behind. \<open>init\<close> is the constructor, called with \<open>size\<close>, \<open>max_turns\<close>,
  \<open>max_fn_time\<close>, \<open>feedback_delay\<close> and \<open>ships\<close>. Return values have the
  annotated types of \<open>Player\<close>.
\<close>

type_synonym shot = "int \<times> int \<times> ShotResult"

record 's Player =
  init :: "int \<Rightarrow> int \<Rightarrow> int \<Rightarrow> int \<Rightarrow> int list \<Rightarrow> exn + 's"
  ship_locations :: "'s \<Rightarrow> (exn + (int \<times> int \<times> int \<times> bool) list) \<times> 's"
  drop_bomb :: "'s \<Rightarrow> (exn + int \<times> int) \<times> 's"
  bomb_feedback :: "int \<Rightarrow> int \<Rightarrow> ShotResult \<Rightarrow> 's \<Rightarrow> (exn + unit) \<times> 's"
  bombed_feedback :: "int \<Rightarrow> int \<Rightarrow> ShotResult \<Rightarrow> 's \<Rightarrow> (exn + unit) \<times> 's"

text \<open>
  \<open>TimedPlayer\<close> runs each method of the wrapped player under \<open>timed()\<close>, which arms
  a signal alarm. Whether the alarm cuts a call short depends on the platform and on wall
  clock time, so it is a parameter \<open>alarm\<close>: \<open>None\<close> when the call runs to its end,
  else the exception raised in its place and the state the player is left in.
\<close>

datatype capability =
    Ship_locations
  | Drop_bomb
  | Bomb_feedback int int ShotResult
  | Bombed_feedback int int ShotResult

type_synonym 's alarm = "capability \<Rightarrow> 's \<Rightarrow> (exn \<times> 's) option"

definition timed :: "('s \<Rightarrow> (exn \<times> 's) option) \<Rightarrow> ('s \<Rightarrow> (exn + 'r) \<times> 's) \<Rightarrow> 's \<Rightarrow> (exn + 'r) \<times> 's" where
  "timed al call s = (case al s of None \<Rightarrow> call s | Some (e, s') \<Rightarrow> (Inl e, s'))"

definition TimedPlayer :: "'s alarm \<Rightarrow> 's Player \<Rightarrow> 's Player" where
  "TimedPlayer al base_player =
     \<lparr>init = init base_player,
      ship_locations = timed (al Ship_locations) (ship_locations base_player),
      drop_bomb = timed (al Drop_bomb) (drop_bomb base_player),
      bomb_feedback = (\<lambda>x y result.
         timed (al (Bomb_feedback x y result)) (bomb_feedback base_player x y result)),
      bombed_feedback = (\<lambda>x y result.
         timed (al (Bombed_feedback x y result)) (bombed_feedback base_player x y result))\<rparr>"

section \<open>game.py\<close>

type_synonym FeedbackBuffer = "shot option list"

record 's NaiveGame =
  p1_class :: "'s Player"
  p2_class :: "'s Player"
  size_G :: int
  max_turns :: int
  max_fn_time :: int
  feedback_delay :: int
  ships_G :: "int list"

text \<open>
  The objects of one round. A player object is its class and its state. Each entry of
  \<open>bunches\<close> names the same six objects from one side: \<open>P1\<close> is
  \<open>(p1, p1_board, p1_buffer, p2, p2_board, p2_buffer)\<close> and \<open>P2\<close> the other one.
\<close>

record 's Round =
  p1 :: "'s Player \<times> 's"
  p1_board :: Board
  p1_buffer :: FeedbackBuffer
  p2 :: "'s Player \<times> 's"
  p2_board :: Board
  p2_buffer :: FeedbackBuffer

datatype side = P1 | P2

fun other :: "side \<Rightarrow> side" where
  "other P1 = P2"
| "other P2 = P1"

fun player :: "side \<Rightarrow> 's Round \<Rightarrow> 's Player \<times> 's" where
  "player P1 st = p1 st"
| "player P2 st = p2 st"

fun board_of :: "side \<Rightarrow> 's Round \<Rightarrow> Board" where
  "board_of P1 st = p1_board st"
| "board_of P2 st = p2_board st"

fun buffer_of :: "side \<Rightarrow> 's Round \<Rightarrow> FeedbackBuffer" where
  "buffer_of P1 st = p1_buffer st"
| "buffer_of P2 st = p2_buffer st"

fun set_player :: "side \<Rightarrow> 's Player \<times> 's \<Rightarrow> 's Round \<Rightarrow> 's Round" where
  "set_player P1 p st = st\<lparr>p1 := p\<rparr>"
| "set_player P2 p st = st\<lparr>p2 := p\<rparr>"

fun set_board :: "side \<Rightarrow> Board \<Rightarrow> 's Round \<Rightarrow> 's Round" where
  "set_board P1 b st = st\<lparr>p1_board := b\<rparr>"
| "set_board P2 b st = st\<lparr>p2_board := b\<rparr>"

fun set_buffer :: "side \<Rightarrow> FeedbackBuffer \<Rightarrow> 's Round \<Rightarrow> 's Round" where
  "set_buffer P1 buf st = st\<lparr>p1_buffer := buf\<rparr>"
| "set_buffer P2 buf st = st\<lparr>p2_buffer := buf\<rparr>"

text \<open>Method calls on a player object: the class's method on the object's state.\<close>

definition call_ship_locations ::
  "'s Player \<times> 's \<Rightarrow> (exn + (int \<times> int \<times> int \<times> bool) list) \<times> 's Player \<times> 's" where
  "call_ship_locations p =
     (case ship_locations (fst p) (snd p) of (r, s) \<Rightarrow> (r, (fst p, s)))"

definition call_drop_bomb :: "'s Player \<times> 's \<Rightarrow> (exn + int \<times> int) \<times> 's Player \<times> 's" where
  "call_drop_bomb p = (case drop_bomb (fst p) (snd p) of (r, s) \<Rightarrow> (r, (fst p, s)))"

definition call_bombed_feedback ::
  "int \<Rightarrow> int \<Rightarrow> ShotResult \<Rightarrow> 's Player \<times> 's \<Rightarrow> (exn + unit) \<times> 's Player \<times> 's" where
  "call_bombed_feedback x y result p =
     (case bombed_feedback (fst p) x y result (snd p) of (r, s) \<Rightarrow> (r, (fst p, s)))"

text \<open>
  \<open>att.bomb_feedback\<close> called with the starred argument \<open>feedback\<close>: unpacking
  \<open>None\<close> raises \<open>TypeError\<close> at the call site, before the method is entered.
\<close>

definition call_bomb_feedback_star ::
  "shot option \<Rightarrow> 's Player \<times> 's \<Rightarrow> (exn + unit) \<times> 's Player \<times> 's" where
  "call_bomb_feedback_star feedback p =
     (case feedback of
        None \<Rightarrow> (Inl (TypeError ''argument after * must be an iterable, not NoneType''), p)
      | Some (x, y, result) \<Rightarrow>
          (case bomb_feedback (fst p) x y result (snd p) of (r, s) \<Rightarrow> (r, (fst p, s))))"

text \<open>\<open>buffer.pop(0)\<close>: \<open>IndexError\<close> on an empty list.\<close>

definition pop0 :: "'a list \<Rightarrow> exn + 'a \<times> 'a list" where
  "pop0 xs = (case xs of [] \<Rightarrow> Inl IndexError | x # rest \<Rightarrow> Inr (x, rest))"

text \<open>\<open>Board()\<close>: the constructor's defaults.\<close>

definition Board_default :: Board where
  "Board_default = Board_init 12 [2, 3, 3, 4, 5]"

text \<open>
  The clauses \<open>except (KeyboardInterrupt, SystemExit): raise\<close> and, after them,
  \<open>except BaseException\<close>.
\<close>

definition interrupt :: "exn \<Rightarrow> bool" where
  "interrupt e = (e = KeyboardInterrupt \<or> e = SystemExit)"

definition is_ValueError :: "exn \<Rightarrow> bool" where
  "is_ValueError e = (case e of ValueError _ \<Rightarrow> True | _ \<Rightarrow> False)"

definition is_TypeError :: "exn \<Rightarrow> bool" where
  "is_TypeError e = (case e of TypeError _ \<Rightarrow> True | _ \<Rightarrow> False)"

text \<open>The scoring at the end of both \<open>_play_round\<close>; a bool times 2 is 0 or 2.\<close>

definition scoring :: "'s Round \<Rightarrow> int \<times> int" where
  "scoring st =
     (let score = (of_bool (still_floating (p1_board st)) * 2,
                   of_bool (still_floating (p2_board st)) * 2)
      in if fst score + snd score \<noteq> 2 then (1, 1) else score)"

text \<open>
  The turn loop of both \<open>_play_round\<close>, over \<open>itertools.cycle(bunches)\<close>: \<open>body\<close>
  is what one iteration does after the check, for the bunch \<open>a\<close> of the attacker; a
  \<open>continue\<close> ends the body. \<open>turn\<close> is the counter before its increment.
\<close>

function turn_loop ::
  "(side \<Rightarrow> 's Round \<Rightarrow> exn + 's Round) \<Rightarrow> int \<Rightarrow> side \<Rightarrow> int \<Rightarrow> 's Round \<Rightarrow> exn + 's Round" where
  "turn_loop body mt a turn st =
     (if \<not> still_floating (board_of a st) \<or> turn + 1 > mt * 2 then Inr st
      else (case body a st of
              Inl e \<Rightarrow> Inl e
            | Inr st' \<Rightarrow> turn_loop body mt (other a) (turn + 1) st'))"
  by pat_completeness auto
termination
  by (relation "measure (\<lambda>(body, mt, a, turn, st). nat (mt * 2 - turn))") auto

subsection \<open>NaiveGame\<close>

fun NaiveGame_place_ships :: "(int \<times> int \<times> int \<times> bool) list \<Rightarrow> Board \<Rightarrow> exn + Board" where
  "NaiveGame_place_ships [] b = Inr b"
| "NaiveGame_place_ships ((sz, x, y, horizontal) # rest) b =
     (case place_ship sz x y horizontal b of
        (Inl e, b') \<Rightarrow> Inl e
      | (Inr u, b') \<Rightarrow> NaiveGame_place_ships rest b')"

definition NaiveGame_setup_ships :: "side \<Rightarrow> 's Round \<Rightarrow> exn + 's Round" where
  "NaiveGame_setup_ships sd st =
     (case call_ship_locations (player sd st) of
        (Inl e, p) \<Rightarrow> Inl e
      | (Inr locations, p) \<Rightarrow>
          (case NaiveGame_place_ships locations (board_of sd st) of
             Inl e \<Rightarrow> Inl e
           | Inr b \<Rightarrow> Inr (set_board sd b (set_player sd p st))))"

text \<open>
  The end of an iteration, lines 77 to 81. The test is on \<open>result\<close>, which is a
  \<open>ShotResult\<close> and so never \<open>None\<close>.
\<close>

definition NaiveGame_report :: "side \<Rightarrow> int \<Rightarrow> int \<Rightarrow> ShotResult \<Rightarrow> 's Round \<Rightarrow> exn + 's Round" where
  "NaiveGame_report a x y result st =
     (case pop0 (buffer_of a st @ [Some (x, y, result)]) of
        Inl e \<Rightarrow> Inl e
      | Inr (feedback, buffer) \<Rightarrow>
          let st1 = set_buffer a buffer st in
          if Some result \<noteq> None then
            (case call_bomb_feedback_star feedback (player a st1) of
               (Inl e, att) \<Rightarrow> Inl e
             | (Inr u, att) \<Rightarrow> Inr (set_player a att st1))
          else Inr st1)"

definition NaiveGame_turn :: "side \<Rightarrow> 's Round \<Rightarrow> exn + 's Round" where
  "NaiveGame_turn a st =
     (case call_drop_bomb (player a st) of
        (Inl e, att) \<Rightarrow> Inl e
      | (Inr (x, y), att) \<Rightarrow>
          let st1 = set_player a att st in
          (case Board_drop_bomb x y (board_of (other a) st1) of
             (Inl e, tgt_b) \<Rightarrow> Inl e
           | (Inr result, tgt_b) \<Rightarrow>
               let st2 = set_board (other a) tgt_b st1 in
               (case call_bombed_feedback x y result (player (other a) st2) of
                  (Inl e, tgt) \<Rightarrow> Inl e
                | (Inr u, tgt) \<Rightarrow>
                    NaiveGame_report a x y result (set_player (other a) tgt st2))))"

text \<open>
  \<open>random.shuffle(bunches)\<close> leaves one of the two bunches first: the parameter
  \<open>first\<close>.
\<close>

definition new_round :: "'s NaiveGame \<Rightarrow> 's Player \<times> 's \<Rightarrow> 's Player \<times> 's \<Rightarrow> 's Round" where
  "new_round g pl1 pl2 =
     \<lparr>p1 = pl1,
      p1_board = Board_default,
      p1_buffer = replicate (nat (feedback_delay g)) None,
      p2 = pl2,
      p2_board = Board_default,
      p2_buffer = replicate (nat (feedback_delay g)) None\<rparr>"

definition new_player :: "'s NaiveGame \<Rightarrow> 's Player \<Rightarrow> exn + 's Player \<times> 's" where
  "new_player g cls =
     (case init cls (size_G g) (max_turns g) (max_fn_time g) (feedback_delay g) (ships_G g) of
        Inl e \<Rightarrow> Inl e
      | Inr s \<Rightarrow> Inr (cls, s))"

text \<open>The round from the two boards on, lines 47 to 81.\<close>

definition NaiveGame_play_boards :: "'s NaiveGame \<Rightarrow> side \<Rightarrow> 's Round \<Rightarrow> exn + 's Round" where
  "NaiveGame_play_boards g first st =
     (case NaiveGame_setup_ships first st of
        Inl e \<Rightarrow> Inl e
      | Inr st1 \<Rightarrow>
     (case NaiveGame_setup_ships (other first) st1 of
        Inl e \<Rightarrow> Inl e
      | Inr st2 \<Rightarrow> turn_loop NaiveGame_turn (max_turns g) first 0 st2))"

definition NaiveGame_play_round :: "'s NaiveGame \<Rightarrow> side \<Rightarrow> exn + int \<times> int" where
  "NaiveGame_play_round g first =
     (case new_player g (p1_class g) of
        Inl e \<Rightarrow> Inl e
      | Inr pl1 \<Rightarrow>
     (case new_player g (p2_class g) of
        Inl e \<Rightarrow> Inl e
      | Inr pl2 \<Rightarrow>
     (case NaiveGame_play_boards g first (new_round g pl1 pl2) of
        Inl e \<Rightarrow> Inl e
      | Inr st \<Rightarrow> Inr (scoring st))))"

text \<open>
  \<open>play\<close>: \<open>play_round i\<close> is the round of iteration \<open>i\<close>, and \<open>n\<close> iterations
  are left.
\<close>

fun play_from ::
  "(nat \<Rightarrow> exn + int \<times> int) \<Rightarrow> nat \<Rightarrow> nat \<Rightarrow> int \<times> int \<Rightarrow> exn + int \<times> int" where
  "play_from play_round i 0 score = Inr score"
| "play_from play_round i (Suc n) score =
     (case play_round i of
        Inl e \<Rightarrow> Inl e
      | Inr (p1_round_score, p2_round_score) \<Rightarrow>
          play_from play_round (Suc i) n
            (fst score + p1_round_score, snd score + p2_round_score))"

definition NaiveGame_play :: "'s NaiveGame \<Rightarrow> (nat \<Rightarrow> side) \<Rightarrow> int \<Rightarrow> exn + int \<times> int" where
  "NaiveGame_play g shuffle games =
     play_from (\<lambda>i. NaiveGame_play_round g (shuffle i)) 0 (nat games) (0, 0)"

subsection \<open>Game\<close>

text \<open>
  A \<open>try\<close> around a player's call with the two clauses of \<open>interrupt\<close>: the exception
  that leaves the \<open>try\<close>, if any.
\<close>

definition reraised :: "exn + 'r \<Rightarrow> exn option" where
  "reraised r = (case r of Inl e \<Rightarrow> if interrupt e then Some e else None | Inr v \<Rightarrow> None)"

text \<open>The class constructed for a player: \<open>TimedPlayer\<close> around it when timing is on.\<close>

definition Game_player_class :: "'s alarm \<Rightarrow> 's NaiveGame \<Rightarrow> 's Player \<Rightarrow> 's Player" where
  "Game_player_class al g cls = (if max_fn_time g > 0 then TimedPlayer al cls else cls)"

definition Game_new_player ::
  "'s alarm \<Rightarrow> 's NaiveGame \<Rightarrow> 's Player \<Rightarrow> exn + ('s Player \<times> 's) option" where
  "Game_new_player al g cls =
     (case new_player g (Game_player_class al g cls) of
        Inl e \<Rightarrow> if interrupt e then Inl e else Inr None
      | Inr p \<Rightarrow> Inr (Some p))"

fun Game_place_ships :: "(int \<times> int \<times> int \<times> bool) list \<Rightarrow> Board \<Rightarrow> exn + Board" where
  "Game_place_ships [] b = Inr b"
| "Game_place_ships ((sz, x, y, horizontal) # rest) b =
     (case place_ship sz x y horizontal b of
        (Inl e, b') \<Rightarrow>
          if is_ValueError e then Game_place_ships rest b'
          else if is_TypeError e then Inr b'
          else Inl e
      | (Inr u, b') \<Rightarrow> Game_place_ships rest b')"

definition Game_setup_ships :: "side \<Rightarrow> 's Round \<Rightarrow> exn + 's Round" where
  "Game_setup_ships sd st =
     (case call_ship_locations (player sd st) of
        (r, p) \<Rightarrow>
          (case reraised r of
             Some e \<Rightarrow> Inl e
           | None \<Rightarrow>
               (case Game_place_ships (case r of Inl e \<Rightarrow> [] | Inr locations \<Rightarrow> locations)
                       (board_of sd st) of
                  Inl e \<Rightarrow> Inl e
                | Inr b \<Rightarrow> Inr (set_board sd b (set_player sd p st)))))"

text \<open>
  The end of an iteration, lines 209 to 218. The \<open>TypeError\<close> of unpacking \<open>None\<close>
  is raised inside the \<open>try\<close> and is caught there.
\<close>

definition Game_report :: "side \<Rightarrow> int \<Rightarrow> int \<Rightarrow> ShotResult \<Rightarrow> 's Round \<Rightarrow> exn + 's Round" where
  "Game_report a x y result st =
     (case pop0 (buffer_of a st @ [Some (x, y, result)]) of
        Inl e \<Rightarrow> Inl e
      | Inr (feedback, buffer) \<Rightarrow>
          let st1 = set_buffer a buffer st in
          if Some result \<noteq> None then
            (case call_bomb_feedback_star feedback (player a st1) of
               (r, att) \<Rightarrow>
                 (case reraised r of
                    Some e \<Rightarrow> Inl e
                  | None \<Rightarrow> Inr (set_player a att st1)))
          else Inr st1)"

definition Game_turn :: "side \<Rightarrow> 's Round \<Rightarrow> exn + 's Round" where
  "Game_turn a st =
     (case call_drop_bomb (player a st) of
        (Inl e, att) \<Rightarrow> if interrupt e then Inl e else Inr (set_player a att st)
      | (Inr (x, y), att) \<Rightarrow>
          let st1 = set_player a att st in
          (case Board_drop_bomb x y (board_of (other a) st1) of
             (Inl e, tgt_b) \<Rightarrow>
               if is_ValueError e then Inr (set_board (other a) tgt_b st1) else Inl e
           | (Inr result, tgt_b) \<Rightarrow>
               let st2 = set_board (other a) tgt_b st1 in
               (case call_bombed_feedback x y result (player (other a) st2) of
                  (r, tgt) \<Rightarrow>
                    (case reraised r of
                       Some e \<Rightarrow> Inl e
                     | None \<Rightarrow> Game_report a x y result (set_player (other a) tgt st2)))))"

text \<open>The round from the two boards on, lines 153 to 225.\<close>

definition Game_play_boards :: "'s NaiveGame \<Rightarrow> side \<Rightarrow> 's Round \<Rightarrow> exn + 's Round" where
  "Game_play_boards g first st =
     (case Game_setup_ships first st of
        Inl e \<Rightarrow> Inl e
      | Inr st1 \<Rightarrow>
     (case Game_setup_ships (other first) st1 of
        Inl e \<Rightarrow> Inl e
      | Inr st2 \<Rightarrow> turn_loop Game_turn (max_turns g) first 0 st2))"

definition Game_play_round :: "'s alarm \<Rightarrow> 's NaiveGame \<Rightarrow> side \<Rightarrow> exn + int \<times> int" where
  "Game_play_round al g first =
     (case Game_new_player al g (p1_class g) of
        Inl e \<Rightarrow> Inl e
      | Inr pl1 \<Rightarrow>
     (case Game_new_player al g (p2_class g) of
        Inl e \<Rightarrow> Inl e
      | Inr pl2 \<Rightarrow>
     (case (pl1, pl2) of
        (None, None) \<Rightarrow> Inr (1, 1)
      | (None, Some q2) \<Rightarrow> Inr (of_bool (pl2 = None) * 2, of_bool (pl1 = None) * 2)
      | (Some q1, None) \<Rightarrow> Inr (of_bool (pl2 = None) * 2, of_bool (pl1 = None) * 2)
      | (Some q1, Some q2) \<Rightarrow>
          (case Game_play_boards g first (new_round g q1 q2) of
             Inl e \<Rightarrow> Inl e
           | Inr st \<Rightarrow> Inr (scoring st)))))"

definition Game_play :: "'s alarm \<Rightarrow> 's NaiveGame \<Rightarrow> (nat \<Rightarrow> side) \<Rightarrow> int \<Rightarrow> exn + int \<times> int" where
  "Game_play al g shuffle games =
     play_from (\<lambda>i. Game_play_round al g (shuffle i)) 0 (nat games) (0, 0)"


section \<open>Exceptions of a player class\<close>

text \<open>Some call of a method of the class \<open>c\<close>, or of its constructor, raises \<open>e\<close>.\<close>

definition raises :: "'s Player \<Rightarrow> exn \<Rightarrow> bool" where
  "raises c e =
     ((\<exists>sz mt ft fd shps. init c sz mt ft fd shps = Inl e)
      \<or> (\<exists>s. fst (ship_locations c s) = Inl e)
      \<or> (\<exists>s. fst (drop_bomb c s) = Inl e)
      \<or> (\<exists>x y result s. fst (bomb_feedback c x y result s) = Inl e)
      \<or> (\<exists>x y result s. fst (bombed_feedback c x y result s) = Inl e))"

section \<open>Players that keep what they are told\<close>


definition feedback_log :: "'c \<times> 's \<times> shot list \<times> shot list \<Rightarrow> shot list" where
  "feedback_log p = fst (snd (snd p))"

definition bombed_log :: "'c \<times> 's \<times> shot list \<times> shot list \<Rightarrow> shot list" where
  "bombed_log p = snd (snd (snd p))"


section \<open>Players for concrete rounds\<close>

text \<open>
  A player without state of its own: it asks for the ships \<open>locations\<close>, and every
  \<open>drop_bomb\<close> returns or raises \<open>bomb\<close>.
\<close>

definition scripted_player :: "(int \<times> int \<times> int \<times> bool) list \<Rightarrow> exn + int \<times> int \<Rightarrow> unit Player" where
  "scripted_player locations bomb =
     \<lparr>init = (\<lambda>size max_turns max_fn_time feedback_delay ships. Inr ()),
      ship_locations = (\<lambda>s. (Inr locations, s)),
      drop_bomb = (\<lambda>s. (bomb, s)),
      bomb_feedback = (\<lambda>x y result s. (Inr (), s)),
      bombed_feedback = (\<lambda>x y result s. (Inr (), s))\<rparr>"

definition scripted_game :: "'s Player \<Rightarrow> 's Player \<Rightarrow> int \<Rightarrow> int \<Rightarrow> 's NaiveGame" where
  "scripted_game c1 c2 mt delay =
     \<lparr>p1_class = c1, p2_class = c2, size_G = 12, max_turns = mt, max_fn_time = 0,
      feedback_delay = delay, ships_G = [2, 3, 3, 4, 5]\<rparr>"

text \<open>
  A player whose state is the list of the feedback on its own shots, in the order
  received; it places no ship and always shoots at \<open>bomb\<close>.
\<close>

definition recording_player :: "int \<times> int \<Rightarrow> shot list Player" where
  "recording_player bomb =
     \<lparr>init = (\<lambda>size max_turns max_fn_time feedback_delay ships. Inr []),
      ship_locations = (\<lambda>s. (Inr [], s)),
      drop_bomb = (\<lambda>s. (Inr bomb, s)),
      bomb_feedback = (\<lambda>x y result s. (Inr (), s @ [(x, y, result)])),
      bombed_feedback = (\<lambda>x y result s. (Inr (), s))\<rparr>"

text \<open>No alarm ever fires.\<close>

definition no_alarm :: "'s alarm" where
  "no_alarm = (\<lambda>c s. None)"

section \<open>Field\<close>

lemma transitions_simps:
  "transitions EMPTY = Some (MISSED, MISS)"
  "transitions SHIP = Some (HIT, HIT_result)"
  "transitions HIT = Some (HIT, PREVIOUS_HIT)"
  "transitions MISSED = Some (MISSED, PREVIOUS_MISS)"
  by (simp_all add: transitions_def)

lemma Field_drop_bomb_simps:
  "Field_drop_bomb \<lparr>state = EMPTY\<rparr> = (Inr MISS, \<lparr>state = MISSED\<rparr>)"
  "Field_drop_bomb \<lparr>state = SHIP\<rparr> = (Inr HIT_result, \<lparr>state = HIT\<rparr>)"
  "Field_drop_bomb \<lparr>state = HIT\<rparr> = (Inr PREVIOUS_HIT, \<lparr>state = HIT\<rparr>)"
  "Field_drop_bomb \<lparr>state = MISSED\<rparr> = (Inr PREVIOUS_MISS, \<lparr>state = MISSED\<rparr>)"
  by (simp_all add: Field_drop_bomb_def transitions_simps)

lemma Field_drop_bomb_total: "\<exists>result f'. Field_drop_bomb f = (Inr result, f')"
  by (cases "state f") (simp_all add: Field_drop_bomb_def transitions_simps)

lemma Field_drop_bombs_MISSED:
  "Field_drop_bombs n \<lparr>state = MISSED\<rparr> = replicate n (Inr PREVIOUS_MISS)"
  by (induction n) (simp_all add: Field_drop_bomb_simps)

lemma Field_drop_bombs_HIT:
  "Field_drop_bombs n \<lparr>state = HIT\<rparr> = replicate n (Inr PREVIOUS_HIT)"
  by (induction n) (simp_all add: Field_drop_bomb_simps)

text \<open>
  C7. \<open>Field.drop_bomb\<close> never fails and is the transition table: EMPTY to MISSED
  with MISS, SHIP to HIT with HIT, HIT to HIT with PREVIOUS_HIT, MISSED to MISSED with
  PREVIOUS_MISS. Any number of calls on an EMPTY field gives MISS once and then
  PREVIOUS_MISS only; on a SHIP field HIT once and then PREVIOUS_HIT only.
\<close>

theorem Field_drop_bomb_table:
  "(\<forall>f. \<exists>result f'. Field_drop_bomb f = (Inr result, f'))
   \<and> Field_drop_bomb \<lparr>state = EMPTY\<rparr> = (Inr MISS, \<lparr>state = MISSED\<rparr>)
   \<and> Field_drop_bomb \<lparr>state = SHIP\<rparr> = (Inr HIT_result, \<lparr>state = HIT\<rparr>)
   \<and> Field_drop_bomb \<lparr>state = HIT\<rparr> = (Inr PREVIOUS_HIT, \<lparr>state = HIT\<rparr>)
   \<and> Field_drop_bomb \<lparr>state = MISSED\<rparr> = (Inr PREVIOUS_MISS, \<lparr>state = MISSED\<rparr>)
   \<and> (\<forall>n. Field_drop_bombs (Suc n) \<lparr>state = EMPTY\<rparr>
          = Inr MISS # replicate n (Inr PREVIOUS_MISS))
   \<and> (\<forall>n. Field_drop_bombs (Suc n) \<lparr>state = SHIP\<rparr>
          = Inr HIT_result # replicate n (Inr PREVIOUS_HIT))"
  using Field_drop_bomb_total
  by (simp add: Field_drop_bomb_simps Field_drop_bombs_MISSED Field_drop_bombs_HIT)

lemma Field_drop_bomb_results:
  "fst (Field_drop_bomb f) \<in> {Inr MISS, Inr HIT_result, Inr PREVIOUS_MISS, Inr PREVIOUS_HIT}"
  by (cases "state f") (simp_all add: Field_drop_bomb_def transitions_simps)

lemma Board_drop_bomb_results:
  "fst (Board_drop_bomb x y b) \<in> {Inl (ValueError ''Invalid coordinates''), Inr MISS, Inr HIT_result, Inr PREVIOUS_MISS, Inr PREVIOUS_HIT}"
proof (cases "py_index (length (board b)) y")
  case None
  then show ?thesis by (simp add: Board_drop_bomb_def)
next
  case (Some r)
  show ?thesis
  proof (cases "py_index (length (board b ! r)) x")
    case None
    with Some show ?thesis by (simp add: Board_drop_bomb_def)
  next
    case c: (Some c)
    obtain res f where "Field_drop_bomb (get_field b (r, c)) = (res, f)"
      by (cases "Field_drop_bomb (get_field b (r, c))")
    with Some c Field_drop_bomb_results [of "get_field b (r, c)"] show ?thesis
      by (auto simp: Board_drop_bomb_def)
  qed
qed

text \<open>
  C10. \<open>ShotResult.INVALID\<close> is never produced: \<open>Field.drop_bomb\<close> returns one
  of MISS, HIT, PREVIOUS_MISS and PREVIOUS_HIT, and \<open>Board.drop_bomb\<close> never returns
  INVALID.
\<close>

theorem INVALID_never_produced:
  "fst (Field_drop_bomb f) \<in> {Inr MISS, Inr HIT_result, Inr PREVIOUS_MISS, Inr PREVIOUS_HIT}
   \<and> fst (Board_drop_bomb x y b) \<noteq> Inr INVALID"
  using Field_drop_bomb_results [of f] Board_drop_bomb_results [of x y b] by auto

section \<open>Board\<close>

text \<open>
  C2. On \<open>Board(size=5, ships=[3])\<close> the call \<open>place_ship(3, 3, 0, True)\<close> fails
  for lack of space and leaves every field as it was, but it has removed the size 3 from
  the remaining ships: the following \<open>place_ship(3, 0, 0, True)\<close> fails too.
\<close>

theorem place_ship_failure_consumes_size:
  "fst (place_ship 3 3 0 True (Board_init 5 [3])) = Inl (ValueError ''Not enough space to place ship'')
   \<and> board (snd (place_ship 3 3 0 True (Board_init 5 [3]))) = board (Board_init 5 [3])
   \<and> remaining_ships (snd (place_ship 3 3 0 True (Board_init 5 [3]))) = []
   \<and> fst (place_ship 3 0 0 True (snd (place_ship 3 3 0 True (Board_init 5 [3]))))
       = Inl (ValueError ''No more ships of this size allowed'')"
  by (simp add: place_ship_def Board_init_def select_fields_def py_index_def py_slice_def
      py_slice_bound_def Let_def)

lemma still_floating_no_ships: "ships_B b = [] \<Longrightarrow> \<not> still_floating b"
  by (simp add: still_floating_def)

lemma ships_B_default: "ships_B Board_default = []"
  by (simp add: Board_default_def Board_init_def)

lemma place_one: "fst (place_ship 2 0 0 True Board_default) = Inr () \<and> still_floating (snd (place_ship 2 0 0 True Board_default))"
  by (simp add: place_ship_def Board_default_def Board_init_def select_fields_def py_index_def py_slice_def py_slice_bound_def Let_def get_field_def Field_init_def set_field_def upt_rec still_floating_def
      mark_ship_def)


section \<open>Rounds\<close>

declare turn_loop.simps [simp del]

lemma scripted_player_simps:
  "init (scripted_player l b) sz mt ft fd shps = Inr ()"
  "ship_locations (scripted_player l b) s = (Inr l, s)"
  "drop_bomb (scripted_player l b) s = (b, s)"
  "bomb_feedback (scripted_player l b) x y r s = (Inr (), s)"
  "bombed_feedback (scripted_player l b) x y r s = (Inr (), s)"
  by (simp_all add: scripted_player_def)

lemma scripted_game_simps:
  "p1_class (scripted_game c1 c2 mt d) = c1"
  "p2_class (scripted_game c1 c2 mt d) = c2"
  "size_G (scripted_game c1 c2 mt d) = 12"
  "max_turns (scripted_game c1 c2 mt d) = mt"
  "max_fn_time (scripted_game c1 c2 mt d) = 0"
  "feedback_delay (scripted_game c1 c2 mt d) = d"
  "ships_G (scripted_game c1 c2 mt d) = [2, 3, 3, 4, 5]"
  by (simp_all add: scripted_game_def)

lemma turn_loop_break:
  "\<not> still_floating (board_of a st) \<or> turn + 1 > mt * 2 \<Longrightarrow> turn_loop body mt a turn st = Inr st"
  by (subst turn_loop.simps) auto

lemma turn_loop_step:
  "still_floating (board_of a st) \<Longrightarrow> turn + 1 \<le> mt * 2 \<Longrightarrow>
   turn_loop body mt a turn st =
     (case body a st of Inl e \<Rightarrow> Inl e | Inr st' \<Rightarrow> turn_loop body mt (other a) (turn + 1) st')"
  by (subst turn_loop.simps) auto

lemma call_simps:
  "call_ship_locations (scripted_player l b, s) = (Inr l, (scripted_player l b, s))"
  "call_drop_bomb (scripted_player l b, s) = (b, (scripted_player l b, s))"
  "call_bombed_feedback x y r (scripted_player l b, s) = (Inr (), (scripted_player l b, s))"
  by (simp_all add: call_ship_locations_def call_drop_bomb_def call_bombed_feedback_def scripted_player_simps)

lemma scoring_table:
  "scoring st =
     (if still_floating (p1_board st) \<and> \<not> still_floating (p2_board st) then (2, 0)
      else if \<not> still_floating (p1_board st) \<and> still_floating (p2_board st) then (0, 2)
      else (1, 1))"
  by (simp add: scoring_def Let_def)

text \<open>
  C5. A round that gets both players and reaches the end of its loop returns (2, 0) when
  only the board of player 1 still floats, (0, 2) when only that of player 2 does, and
  the draw (1, 1) when both or neither float: the pair of 2-or-0 scores, replaced by
  (1, 1) when it does not sum to 2.
\<close>

theorem round_score:
  "(Game_new_player al g (p1_class g) = Inr (Some q1)
      \<longrightarrow> Game_new_player al g (p2_class g) = Inr (Some q2)
      \<longrightarrow> Game_play_boards g first (new_round g q1 q2) = Inr st
      \<longrightarrow> Game_play_round al g first =
          Inr (if still_floating (p1_board st) \<and> \<not> still_floating (p2_board st) then (2, 0)
               else if \<not> still_floating (p1_board st) \<and> still_floating (p2_board st) then (0, 2)
               else (1, 1)))
   \<and> (new_player g (p1_class g) = Inr r1
      \<longrightarrow> new_player g (p2_class g) = Inr r2
      \<longrightarrow> NaiveGame_play_boards g first (new_round g r1 r2) = Inr st'
      \<longrightarrow> NaiveGame_play_round g first =
          Inr (if still_floating (p1_board st') \<and> \<not> still_floating (p2_board st') then (2, 0)
               else if \<not> still_floating (p1_board st') \<and> still_floating (p2_board st') then (0, 2)
               else (1, 1)))"
  by (simp add: Game_play_round_def NaiveGame_play_round_def scoring_table)

theorem round_score_witness:
  "Game_play_round no_alarm
     (scripted_game (scripted_player [(2, 0, 0, True)] (Inr (0, 0))) (scripted_player [] (Inr (0, 0))) 144 0) P2
     = Inr (2, 0)
   \<and> NaiveGame_play_round
     (scripted_game (scripted_player [(2, 0, 0, True)] (Inr (0, 0))) (scripted_player [] (Inr (0, 0))) 144 0) P2
     = Inr (2, 0)"
proof -
  define c1 where "c1 = scripted_player [(2, 0, 0, True)] (Inr (0, 0))"
  define c2 where "c2 = scripted_player [] (Inr (0, 0))"
  define g where "g = scripted_game c1 c2 144 0"
  define b1 where "b1 = snd (place_ship 2 0 0 True Board_default)"
  define st where "st = (new_round g (c1, ()) (c2, ()))\<lparr>p1_board := b1\<rparr>"
  have place: "place_ship 2 0 0 True Board_default = (Inr (), b1)"
    using place_one by (simp add: b1_def prod_eq_iff)
  have fl1: "still_floating b1"
    using place_one by (simp add: b1_def)
  have fl2: "\<not> still_floating Board_default"
    by (simp add: still_floating_no_ships ships_B_default)
  have n1: "Game_new_player no_alarm g (p1_class g) = Inr (Some (c1, ()))"
    by (simp add: Game_new_player_def Game_player_class_def new_player_def g_def c1_def scripted_game_simps scripted_player_simps)
  have n2: "Game_new_player no_alarm g (p2_class g) = Inr (Some (c2, ()))"
    by (simp add: Game_new_player_def Game_player_class_def new_player_def g_def c2_def scripted_game_simps scripted_player_simps)
  have m1: "new_player g (p1_class g) = Inr (c1, ())"
    by (simp add: new_player_def g_def c1_def scripted_game_simps scripted_player_simps)
  have m2: "new_player g (p2_class g) = Inr (c2, ())"
    by (simp add: new_player_def g_def c2_def scripted_game_simps scripted_player_simps)
  have loop: "turn_loop body (max_turns g) P2 0 st = Inr st" for body :: "side \<Rightarrow> unit Round \<Rightarrow> exn + unit Round"
    by (rule turn_loop_break) (simp add: st_def new_round_def fl2)
  have s1: "Game_setup_ships P2 (new_round g (c1, ()) (c2, ())) = Inr (new_round g (c1, ()) (c2, ()))"
    by (simp add: Game_setup_ships_def new_round_def c2_def call_simps reraised_def)
  have s2: "Game_setup_ships P1 (new_round g (c1, ()) (c2, ())) = Inr st"
    by (simp add: Game_setup_ships_def new_round_def c1_def call_simps reraised_def place st_def)
  have t1: "NaiveGame_setup_ships P2 (new_round g (c1, ()) (c2, ())) = Inr (new_round g (c1, ()) (c2, ()))"
    by (simp add: NaiveGame_setup_ships_def new_round_def c2_def call_simps)
  have t2: "NaiveGame_setup_ships P1 (new_round g (c1, ()) (c2, ())) = Inr st"
    by (simp add: NaiveGame_setup_ships_def new_round_def c1_def call_simps place st_def)
  have b: "Game_play_boards g P2 (new_round g (c1, ()) (c2, ())) = Inr st"
    by (simp add: Game_play_boards_def s1 s2 loop)
  have nb: "NaiveGame_play_boards g P2 (new_round g (c1, ()) (c2, ())) = Inr st"
    by (simp add: NaiveGame_play_boards_def t1 t2 loop)
  have f: "still_floating (p1_board st)" "\<not> still_floating (p2_board st)"
    by (simp_all add: st_def new_round_def fl1 fl2)
  show ?thesis
    using round_score [of no_alarm g "(c1, ())" "(c2, ())" P2 st "(c1, ())" "(c2, ())" st] n1 n2 m1 m2 b nb f
    by (simp add: g_def c1_def c2_def)
qed

section \<open>The boards of a round\<close>

lemma new_round_size_ships:
  "new_round (g\<lparr>size_G := sz, ships_G := shps\<rparr>) q1 q2 = new_round g q1 q2"
  by (simp add: new_round_def)

lemma play_boards_size_ships:
  "Game_play_boards (g\<lparr>size_G := sz, ships_G := shps\<rparr>) first st = Game_play_boards g first st"
  "NaiveGame_play_boards (g\<lparr>size_G := sz, ships_G := shps\<rparr>) first st = NaiveGame_play_boards g first st"
  by (simp_all add: Game_play_boards_def NaiveGame_play_boards_def split: sum.splits)

lemma one_ship_round:
  assumes "fst (place_ship sz x y h Board_default) = Inr ()"
    and "still_floating (snd (place_ship sz x y h Board_default))"
  shows "Game_play_round no_alarm
     (scripted_game (scripted_player [(sz, x, y, h)] bomb) (scripted_player [] bomb') mt d) P2
     = Inr (2, 0)"
proof -
  define c1 where "c1 = scripted_player [(sz, x, y, h)] bomb"
  define c2 where "c2 = scripted_player [] bomb'"
  define g where "g = scripted_game c1 c2 mt d"
  define b1 where "b1 = snd (place_ship sz x y h Board_default)"
  define st where "st = (new_round g (c1, ()) (c2, ()))\<lparr>p1_board := b1\<rparr>"
  have place: "place_ship sz x y h Board_default = (Inr (), b1)"
    using assms(1) by (simp add: b1_def prod_eq_iff)
  have fl1: "still_floating b1"
    using assms(2) by (simp add: b1_def)
  have fl2: "\<not> still_floating Board_default"
    by (simp add: still_floating_no_ships ships_B_default)
  have n1: "Game_new_player no_alarm g (p1_class g) = Inr (Some (c1, ()))"
    by (simp add: Game_new_player_def Game_player_class_def new_player_def g_def c1_def
        scripted_game_simps scripted_player_simps)
  have n2: "Game_new_player no_alarm g (p2_class g) = Inr (Some (c2, ()))"
    by (simp add: Game_new_player_def Game_player_class_def new_player_def g_def c2_def
        scripted_game_simps scripted_player_simps)
  have loop: "turn_loop Game_turn (max_turns g) P2 0 st = Inr st"
    by (rule turn_loop_break) (simp add: st_def new_round_def fl2)
  have s1: "Game_setup_ships P2 (new_round g (c1, ()) (c2, ())) = Inr (new_round g (c1, ()) (c2, ()))"
    by (simp add: Game_setup_ships_def new_round_def c2_def call_simps reraised_def)
  have s2: "Game_setup_ships P1 (new_round g (c1, ()) (c2, ())) = Inr st"
    by (simp add: Game_setup_ships_def new_round_def c1_def call_simps reraised_def place st_def)
  have b: "Game_play_boards g P2 (new_round g (c1, ()) (c2, ())) = Inr st"
    by (simp add: Game_play_boards_def s1 s2 loop)
  have sc: "scoring st = (2, 0)"
    by (simp add: scoring_table st_def new_round_def fl1 fl2)
  show ?thesis
    using n1 n2 b sc by (simp add: Game_play_round_def g_def c1_def c2_def)
qed

lemma place_wide:
  "fst (place_ship 5 7 0 True Board_default) = Inr ()
   \<and> still_floating (snd (place_ship 5 7 0 True Board_default))"
  by (simp add: place_ship_def Board_default_def Board_init_def select_fields_def py_index_def
      py_slice_def py_slice_bound_def Let_def get_field_def Field_init_def set_field_def upt_rec
      still_floating_def mark_ship_def)

section \<open>The feedback buffer\<close>

lemma pop0_append: "pop0 (buffer @ [x]) = Inr (hd (buffer @ [x]), tl (buffer @ [x]))"
  by (cases buffer) (simp_all add: pop0_def)



lemma player_set_buffer [simp]: "player a (set_buffer b buf st) = player a st"
  by (cases a; cases b) simp_all

lemma set_player_same [simp]: "player a st' = player a st \<Longrightarrow> set_player a (player a st) st' = st'"
  by (cases a) simp_all

lemma Game_report_eq:
  "Game_report a x y result st =
     (case hd (buffer_of a st @ [Some (x, y, result)]) of
        None \<Rightarrow> Inr (set_buffer a (tl (buffer_of a st @ [Some (x, y, result)])) st)
      | Some (fx, fy, fr) \<Rightarrow>
          (case bomb_feedback (fst (player a st)) fx fy fr (snd (player a st)) of
             (r, s) \<Rightarrow>
               (case reraised r of
                  Some e \<Rightarrow> Inl e
                | None \<Rightarrow>
                    Inr (set_player a (fst (player a st), s)
                          (set_buffer a (tl (buffer_of a st @ [Some (x, y, result)])) st)))))"
  by (simp add: Game_report_def pop0_append call_bomb_feedback_star_def reraised_def interrupt_def
      split: option.splits prod.splits)


lemma NaiveGame_report_None:
  assumes "hd (buffer_of a st @ [Some (x, y, result)]) = None"
  shows "NaiveGame_report a x y result st =
     Inl (TypeError ''argument after * must be an iterable, not NoneType'')"
  using assms by (simp add: NaiveGame_report_def pop0_append call_bomb_feedback_star_def)


lemma recording_player_simps:
  "init (recording_player b) sz mt ft fd shps = Inr []"
  "ship_locations (recording_player b) s = (Inr [], s)"
  "drop_bomb (recording_player b) s = (Inr b, s)"
  "bomb_feedback (recording_player b) x y r s = (Inr (), s @ [(x, y, r)])"
  "bombed_feedback (recording_player b) x y r s = (Inr (), s)"
  by (simp_all add: recording_player_def)

section \<open>Exceptions in the lenient round\<close>

lemma place_ship_raises_ValueError:
  "fst (place_ship sz x y h b) = Inl e \<Longrightarrow> is_ValueError e"
  by (auto simp: place_ship_def Let_def is_ValueError_def split: if_splits option.splits)

lemma Game_place_ships_returns: "\<exists>b'. Game_place_ships ls b = Inr b'"
proof (induction ls arbitrary: b)
  case Nil
  show ?case by simp
next
  case (Cons l ls)
  obtain sz x y h where l: "l = (sz, x, y, h)" by (cases l)
  obtain r b1 where p: "place_ship sz x y h b = (r, b1)" by (cases "place_ship sz x y h b")
  show ?case
  proof (cases r)
    case (Inl e)
    with p place_ship_raises_ValueError [of sz x y h b e] have "is_ValueError e" by simp
    with l p Inl Cons.IH [of b1] show ?thesis by simp
  next
    case (Inr u)
    with l p Cons.IH [of b1] show ?thesis by simp
  qed
qed

lemma reraised_Some: "reraised r = Some e \<Longrightarrow> interrupt e \<and> r = Inl e"
  by (auto simp: reraised_def split: sum.splits if_splits)

lemma reraised_Inl: "interrupt e \<Longrightarrow> reraised (Inl e) = Some e"
  by (simp add: reraised_def)

lemma raisesI:
  "init c sz mt ft fd shps = Inl e \<Longrightarrow> raises c e"
  "fst (ship_locations c s) = Inl e \<Longrightarrow> raises c e"
  "fst (drop_bomb c s) = Inl e \<Longrightarrow> raises c e"
  "fst (bomb_feedback c x y result s) = Inl e \<Longrightarrow> raises c e"
  "fst (bombed_feedback c x y result s) = Inl e \<Longrightarrow> raises c e"
  unfolding raises_def by blast+

text \<open>The classes of the two player objects of a round.\<close>

lemma other_neq [simp]: "other a \<noteq> a" "a \<noteq> other a"
  by (cases a; simp)+

lemma player_set [simp]:
  "player a (set_board b bd st) = player a st"
  "player a (set_player b p st) = (if a = b then p else player a st)"
  by (cases a; cases b; simp)+

lemma Game_setup_ships_Inl:
  assumes "Game_setup_ships sd st = Inl e"
  shows "interrupt e \<and> raises (fst (player sd st)) e"
proof -
  obtain r s where c: "ship_locations (fst (player sd st)) (snd (player sd st)) = (r, s)"
    by (cases "ship_locations (fst (player sd st)) (snd (player sd st))")
  obtain b' where b: "Game_place_ships (case r of Inl e \<Rightarrow> [] | Inr ls \<Rightarrow> ls) (board_of sd st) = Inr b'"
    using Game_place_ships_returns by blast
  from assms c b have "reraised r = Some e"
    by (simp add: Game_setup_ships_def call_ship_locations_def split: option.splits)
  then have "interrupt e" "r = Inl e" using reraised_Some by blast+
  with c raisesI(2) [of "fst (player sd st)" "snd (player sd st)" e] show ?thesis by simp
qed

lemma Game_setup_ships_Inr:
  assumes "Game_setup_ships sd st = Inr st'"
  shows "fst (player a st') = fst (player a st)"
  using assms
  by (cases a; cases sd)
    (auto simp: Game_setup_ships_def call_ship_locations_def split: option.splits prod.splits sum.splits)


lemma Board_drop_bomb_raises_ValueError:
  "fst (Board_drop_bomb x y b) = Inl e \<Longrightarrow> is_ValueError e"
  using Board_drop_bomb_results [of x y b] by (auto simp: is_ValueError_def)

lemma Game_report_Inl:
  assumes "Game_report a x y result st = Inl e"
  shows "interrupt e \<and> raises (fst (player a st)) e"
proof (cases "hd (buffer_of a st @ [Some (x, y, result)])")
  case None
  with assms show ?thesis by (simp add: Game_report_eq)
next
  case (Some f)
  obtain fx fy fr where f: "f = (fx, fy, fr)" by (cases f)
  obtain r s where c: "bomb_feedback (fst (player a st)) fx fy fr (snd (player a st)) = (r, s)"
    by (cases "bomb_feedback (fst (player a st)) fx fy fr (snd (player a st))")
  from assms Some f c have "reraised r = Some e"
    by (simp add: Game_report_eq split: option.splits)
  then have "interrupt e" "r = Inl e" using reraised_Some by blast+
  with c raisesI(4) [of "fst (player a st)" fx fy fr "snd (player a st)" e] show ?thesis by simp
qed

lemma Game_report_Inr:
  assumes "Game_report a x y result st = Inr st'"
  shows "fst (player b st') = fst (player b st)"
  using assms
  by (auto simp: Game_report_eq split: option.splits prod.splits)

lemma Game_turn_Inl:
  assumes "Game_turn a st = Inl e"
  shows "interrupt e \<and> (raises (fst (player a st)) e \<or> raises (fst (player (other a) st)) e)"
proof -
  obtain r att where d: "drop_bomb (fst (player a st)) (snd (player a st)) = (r, att)"
    by (cases "drop_bomb (fst (player a st)) (snd (player a st))")
  show ?thesis
  proof (cases r)
    case (Inl e')
    with assms d have "interrupt e'" "e' = e"
      by (auto simp: Game_turn_def call_drop_bomb_def split: if_splits)
    with d Inl raisesI(3) [of "fst (player a st)" "snd (player a st)" e] show ?thesis by simp
  next
    case (Inr xy)
    obtain x' y' where xy: "xy = (x', y')" by (cases xy)
    define st1 where "st1 = set_player a (fst (player a st), att) st"
    obtain res tgt_b where bd: "Board_drop_bomb x' y' (board_of (other a) st1) = (res, tgt_b)"
      by (cases "Board_drop_bomb x' y' (board_of (other a) st1)")
    show ?thesis
    proof (cases res)
      case (Inl e')
      with bd Board_drop_bomb_raises_ValueError [of x' y' "board_of (other a) st1" e']
      have "is_ValueError e'" by simp
      with assms d Inr xy bd Inl show ?thesis
        by (simp add: Game_turn_def call_drop_bomb_def st1_def)
    next
      case res: (Inr result)
      define st2 where "st2 = set_board (other a) tgt_b st1"
      obtain r' tgt where bf: "bombed_feedback (fst (player (other a) st2)) x' y' result (snd (player (other a) st2)) = (r', tgt)"
        by (cases "bombed_feedback (fst (player (other a) st2)) x' y' result (snd (player (other a) st2))")
      have cls: "fst (player b st2) = fst (player b st)" for b
        by (simp add: st2_def st1_def)
      show ?thesis
      proof (cases "reraised r'")
        case None
        with assms d Inr xy bd res bf
        have "Game_report a x' y' result (set_player (other a) (fst (player (other a) st2), tgt) st2) = Inl e"
          by (simp add: Game_turn_def call_drop_bomb_def call_bombed_feedback_def st1_def st2_def)
        from Game_report_Inl [OF this] cls show ?thesis by simp
      next
        case (Some e')
        with assms d Inr xy bd res bf have "e' = e"
          by (simp add: Game_turn_def call_drop_bomb_def call_bombed_feedback_def st1_def st2_def)
        with Some have "interrupt e" "r' = Inl e" using reraised_Some by blast+
        with bf raisesI(5) [of "fst (player (other a) st2)" x' y' result "snd (player (other a) st2)" e] cls
        show ?thesis by simp
      qed
    qed
  qed
qed

lemma Game_turn_Inr:
  assumes "Game_turn a st = Inr st'"
  shows "fst (player b st') = fst (player b st)"
proof -
  obtain r att where d: "drop_bomb (fst (player a st)) (snd (player a st)) = (r, att)"
    by (cases "drop_bomb (fst (player a st)) (snd (player a st))")
  show ?thesis
  proof (cases r)
    case (Inl e')
    with assms d show ?thesis
      by (auto simp: Game_turn_def call_drop_bomb_def split: if_splits)
  next
    case (Inr xy)
    obtain x' y' where xy: "xy = (x', y')" by (cases xy)
    define st1 where "st1 = set_player a (fst (player a st), att) st"
    obtain res tgt_b where bd: "Board_drop_bomb x' y' (board_of (other a) st1) = (res, tgt_b)"
      by (cases "Board_drop_bomb x' y' (board_of (other a) st1)")
    show ?thesis
    proof (cases res)
      case (Inl e')
      with assms d Inr xy bd show ?thesis
        by (auto simp: Game_turn_def call_drop_bomb_def st1_def split: if_splits)
    next
      case res: (Inr result)
      define st2 where "st2 = set_board (other a) tgt_b st1"
      obtain r' tgt where bf: "bombed_feedback (fst (player (other a) st2)) x' y' result (snd (player (other a) st2)) = (r', tgt)"
        by (cases "bombed_feedback (fst (player (other a) st2)) x' y' result (snd (player (other a) st2))")
      have cls: "fst (player b st2) = fst (player b st)" for b
        by (simp add: st2_def st1_def)
      from assms d Inr xy bd res bf
      have "Game_report a x' y' result (set_player (other a) (fst (player (other a) st2), tgt) st2) = Inr st'"
        by (simp add: Game_turn_def call_drop_bomb_def call_bombed_feedback_def st1_def st2_def
            split: option.splits)
      from Game_report_Inr [OF this, of b] cls show ?thesis by simp
    qed
  qed
qed

lemma turn_loop_Inl:
  assumes "turn_loop body mt a turn st = Inl e"
    and "I st"
    and "\<And>a st e. I st \<Longrightarrow> body a st = Inl e \<Longrightarrow> P e"
    and "\<And>a st st'. I st \<Longrightarrow> body a st = Inr st' \<Longrightarrow> I st'"
  shows "P e"
  using assms
proof (induction body mt a turn st rule: turn_loop.induct)
  case (1 body mt a turn st)
  show ?case
  proof (cases "\<not> still_floating (board_of a st) \<or> turn + 1 > mt * 2")
    case True
    with "1.prems"(1) show ?thesis by (simp add: turn_loop_break)
  next
    case False
    show ?thesis
    proof (cases "body a st")
      case (Inl e')
      with False "1.prems"(1) have "e' = e" by (subst (asm) turn_loop.simps) simp
      with Inl have "body a st = Inl e" by simp
      with "1.prems"(2) show ?thesis by (rule "1.prems"(3))
    next
      case (Inr st')
      with False "1.prems"(1) have l: "turn_loop body mt (other a) (turn + 1) st' = Inl e"
        by (subst (asm) turn_loop.simps) simp
      have i: "I st'" using "1.prems"(2) Inr by (rule "1.prems"(4))
      show ?thesis
        using l i "1.prems"(3,4) by (rule "1.IH" [OF False Inr])
    qed
  qed
qed


lemma Game_new_player_Inl:
  assumes "Game_new_player al g cls = Inl e"
  shows "interrupt e \<and> raises (Game_player_class al g cls) e"
  using assms raisesI(1) [of "Game_player_class al g cls" _ _ _ _ _ e]
  by (auto simp: Game_new_player_def new_player_def split: sum.splits if_splits)

lemma Game_new_player_Some:
  assumes "Game_new_player al g cls = Inr (Some q)"
  shows "fst q = Game_player_class al g cls"
  using assms
  by (auto simp: Game_new_player_def new_player_def split: sum.splits if_splits)

lemma Game_play_boards_Inl:
  assumes "Game_play_boards g first st = Inl e"
  shows "interrupt e \<and> (raises (fst (p1 st)) e \<or> raises (fst (p2 st)) e)"
proof -
  have pl: "raises (fst (player a st')) e' \<Longrightarrow> fst (p1 st') = fst (p1 st) \<Longrightarrow> fst (p2 st') = fst (p2 st)
      \<Longrightarrow> raises (fst (p1 st)) e' \<or> raises (fst (p2 st)) e'" for a st' e'
    by (cases a) simp_all
  show ?thesis
  proof (cases "Game_setup_ships first st")
    case (Inl e')
    with assms have "e' = e" by (simp add: Game_play_boards_def)
    with Inl Game_setup_ships_Inl [of first st e] pl [of first st e] show ?thesis by simp
  next
    case st1: (Inr st1)
    have c1: "fst (p1 st1) = fst (p1 st)" "fst (p2 st1) = fst (p2 st)"
      using Game_setup_ships_Inr [OF st1, of P1] Game_setup_ships_Inr [OF st1, of P2] by simp_all
    show ?thesis
    proof (cases "Game_setup_ships (other first) st1")
      case (Inl e')
      with assms st1 have "e' = e" by (simp add: Game_play_boards_def)
      with Inl Game_setup_ships_Inl [of "other first" st1 e] pl [of "other first" st1 e] c1
      show ?thesis by simp
    next
      case st2: (Inr st2)
      have c2: "fst (p1 st2) = fst (p1 st)" "fst (p2 st2) = fst (p2 st)"
        using Game_setup_ships_Inr [OF st2, of P1] Game_setup_ships_Inr [OF st2, of P2] c1 by simp_all
      from assms st1 st2 have l: "turn_loop Game_turn (max_turns g) first 0 st2 = Inl e"
        by (simp add: Game_play_boards_def)
      show ?thesis
      proof (rule turn_loop_Inl [OF l, where I = "\<lambda>s. fst (p1 s) = fst (p1 st) \<and> fst (p2 s) = fst (p2 st)"])
        show "fst (p1 st2) = fst (p1 st) \<and> fst (p2 st2) = fst (p2 st)" using c2 by simp
      next
        fix a s e'
        assume i: "fst (p1 s) = fst (p1 st) \<and> fst (p2 s) = fst (p2 st)" and t: "Game_turn a s = Inl e'"
        from Game_turn_Inl [OF t] i show "interrupt e' \<and> (raises (fst (p1 st)) e' \<or> raises (fst (p2 st)) e')"
          by (cases a) auto
      next
        fix a s s'
        assume i: "fst (p1 s) = fst (p1 st) \<and> fst (p2 s) = fst (p2 st)" and t: "Game_turn a s = Inr s'"
        from Game_turn_Inr [OF t, of P1] Game_turn_Inr [OF t, of P2] i
        show "fst (p1 s') = fst (p1 st) \<and> fst (p2 s') = fst (p2 st)" by simp
      qed
    qed
  qed
qed

lemma Game_play_round_Inl:
  assumes "Game_play_round al g first = Inl e"
  shows "interrupt e \<and> (raises (Game_player_class al g (p1_class g)) e
                        \<or> raises (Game_player_class al g (p2_class g)) e)"
proof (cases "Game_new_player al g (p1_class g)")
  case (Inl e')
  with assms have "e' = e" by (simp add: Game_play_round_def)
  with Inl Game_new_player_Inl [of al g "p1_class g" e] show ?thesis by simp
next
  case pl1: (Inr pl1)
  show ?thesis
  proof (cases "Game_new_player al g (p2_class g)")
    case (Inl e')
    with assms pl1 have "e' = e" by (simp add: Game_play_round_def)
    with Inl Game_new_player_Inl [of al g "p2_class g" e] show ?thesis by simp
  next
    case pl2: (Inr pl2)
    from assms pl1 pl2 obtain q1 q2 where q: "pl1 = Some q1" "pl2 = Some q2"
      and b: "Game_play_boards g first (new_round g q1 q2) = Inl e"
      by (auto simp: Game_play_round_def split: option.splits sum.splits)
    from Game_play_boards_Inl [OF b] Game_new_player_Some [of al g "p1_class g" q1]
      Game_new_player_Some [of al g "p2_class g" q2] pl1 pl2 q
    show ?thesis by (simp add: new_round_def)
  qed
qed

lemma play_from_Inl:
  "play_from play_round i n score = Inl e \<Longrightarrow> \<exists>j. play_round j = Inl e"
proof (induction n arbitrary: i score)
  case 0
  then show ?case by simp
next
  case (Suc n)
  show ?case
  proof (cases "play_round i")
    case (Inl e')
    with Suc.prems show ?thesis by auto
  next
    case (Inr r)
    with Suc.prems Suc.IH show ?thesis by (auto split: prod.splits)
  qed
qed

lemma Game_play_Inl:
  assumes "Game_play al g shuffle games = Inl e"
  shows "interrupt e \<and> (raises (Game_player_class al g (p1_class g)) e
                        \<or> raises (Game_player_class al g (p2_class g)) e)"
proof -
  from assms obtain j where "Game_play_round al g (shuffle j) = Inl e"
    unfolding Game_play_def using play_from_Inl [of "\<lambda>i. Game_play_round al g (shuffle i)"] by blast
  then show ?thesis by (rule Game_play_round_Inl)
qed

lemma Game_play_returns:
  assumes "\<forall>e. interrupt e \<longrightarrow> \<not> raises (Game_player_class al g (p1_class g)) e
                           \<and> \<not> raises (Game_player_class al g (p2_class g)) e"
  shows "\<exists>score. Game_play al g shuffle games = Inr score"
proof (cases "Game_play al g shuffle games")
  case (Inl e)
  from Game_play_Inl [OF Inl] assms show ?thesis by blast
next
  case (Inr score)
  then show ?thesis by blast
qed


lemma new_player_interrupt_p1:
  "interrupt e \<longrightarrow> new_player g (Game_player_class al g (p1_class g)) = Inl e
   \<longrightarrow> Game_play_round al g first = Inl e"
  by (simp add: Game_play_round_def Game_new_player_def)

lemma new_player_interrupt_p2:
  "interrupt e \<longrightarrow> new_player g (Game_player_class al g (p2_class g)) = Inl e
   \<longrightarrow> Game_new_player al g (p1_class g) = Inr pl1
   \<longrightarrow> Game_play_round al g first = Inl e"
  by (simp add: Game_play_round_def Game_new_player_def)

lemma ship_locations_interrupt:
  "interrupt e \<longrightarrow> fst (call_ship_locations (player sd st)) = Inl e
   \<longrightarrow> Game_setup_ships sd st = Inl e"
  by (auto simp: Game_setup_ships_def reraised_def split: prod.splits)

lemma drop_bomb_interrupt:
  "interrupt e \<longrightarrow> fst (call_drop_bomb (player a st)) = Inl e \<longrightarrow> Game_turn a st = Inl e"
  by (auto simp: Game_turn_def split: prod.splits)

lemma board_of_set_player [simp]: "board_of a (set_player b p st) = board_of a st"
  by (cases a; cases b) simp_all

lemma bombed_feedback_interrupt:
  "interrupt e \<longrightarrow> call_drop_bomb (player a st) = (Inr (x, y), att)
   \<longrightarrow> Board_drop_bomb x y (board_of (other a) st) = (Inr result, tgt_b)
   \<longrightarrow> fst (call_bombed_feedback x y result (player (other a) st)) = Inl e
   \<longrightarrow> Game_turn a st = Inl e"
  by (auto simp: Game_turn_def reraised_def split: prod.splits)

lemma bomb_feedback_interrupt:
  "interrupt e \<longrightarrow> hd (buffer_of a st @ [Some (x, y, result)]) = Some (fx, fy, fr)
   \<longrightarrow> fst (bomb_feedback (fst (player a st)) fx fy fr (snd (player a st))) = Inl e
   \<longrightarrow> Game_report a x y result st = Inl e"
  by (auto simp: Game_report_eq reraised_def split: prod.splits)

lemma Game_report_interrupt:
  "call_drop_bomb (player a st) = (Inr (x, y), att)
   \<longrightarrow> Board_drop_bomb x y (board_of (other a) st) = (Inr result, tgt_b)
   \<longrightarrow> call_bombed_feedback x y result (player (other a) st) = (r, tgt)
   \<longrightarrow> reraised r = None
   \<longrightarrow> Game_report a x y result
         (set_player (other a) tgt (set_board (other a) tgt_b (set_player a att st))) = Inl e
   \<longrightarrow> Game_turn a st = Inl e"
  by (auto simp: Game_turn_def)

lemma turn_loop_interrupt:
  "still_floating (board_of a st) \<longrightarrow> turn + 1 \<le> mt * 2
   \<longrightarrow> (body a st = Inl e
        \<or> (\<exists>st'. body a st = Inr st' \<and> turn_loop body mt (other a) (turn + 1) st' = Inl e))
   \<longrightarrow> turn_loop body mt a turn st = Inl e"
  by (auto simp: turn_loop_step)

lemma Game_play_boards_interrupt:
  "(Game_setup_ships first st = Inl e
     \<or> (\<exists>st1. Game_setup_ships first st = Inr st1
          \<and> (Game_setup_ships (other first) st1 = Inl e
             \<or> (\<exists>st2. Game_setup_ships (other first) st1 = Inr st2
                  \<and> turn_loop Game_turn (max_turns g) first 0 st2 = Inl e))))
   \<longrightarrow> Game_play_boards g first st = Inl e"
  by (auto simp: Game_play_boards_def)

lemma Game_play_round_interrupt:
  "Game_new_player al g (p1_class g) = Inr (Some q1)
   \<longrightarrow> Game_new_player al g (p2_class g) = Inr (Some q2)
   \<longrightarrow> Game_play_boards g first (new_round g q1 q2) = Inl e
   \<longrightarrow> Game_play_round al g first = Inl e"
  by (simp add: Game_play_round_def)

lemma play_from_interrupt:
  "play_round (i + j) = Inl e \<Longrightarrow> j < n \<Longrightarrow> \<forall>k < j. \<exists>score. play_round (i + k) = Inr score
   \<Longrightarrow> play_from play_round i n sc = Inl e"
proof (induction n arbitrary: i j sc)
  case 0
  then show ?case by simp
next
  case (Suc n)
  show ?case
  proof (cases j)
    case 0
    with Suc.prems show ?thesis by simp
  next
    case (Suc j')
    with Suc.prems(3) obtain r where r: "play_round i = Inr r" by force
    have "play_from play_round (Suc i) n sc' = Inl e" for sc'
    proof (rule Suc.IH [of "Suc i" j'])
      show "play_round (Suc i + j') = Inl e" using Suc.prems(1) Suc by simp
      show "j' < n" using Suc.prems(2) Suc by simp
      show "\<forall>k<j'. \<exists>score. play_round (Suc i + k) = Inr score"
      proof (intro allI impI)
        fix k assume "k < j'"
        then have "Suc k < j" using Suc by simp
        with Suc.prems(3) have "\<exists>score. play_round (i + Suc k) = Inr score" by blast
        then show "\<exists>score. play_round (Suc i + k) = Inr score" by simp
      qed
    qed
    with r show ?thesis by (simp split: prod.splits)
  qed
qed

lemma Game_play_interrupt:
  "Game_play_round al g (shuffle j) = Inl e \<longrightarrow> int j < games
   \<longrightarrow> (\<forall>k < j. \<exists>score. Game_play_round al g (shuffle k) = Inr score)
   \<longrightarrow> Game_play al g shuffle games = Inl e"
  unfolding Game_play_def
  using play_from_interrupt [of "\<lambda>i. Game_play_round al g (shuffle i)" 0 j e "nat games" "(0, 0)"]
  by auto


lemma not_raises_scripted:
  "interrupt e \<Longrightarrow> \<forall>e'. bomb = Inl e' \<longrightarrow> \<not> interrupt e' \<Longrightarrow> \<not> raises (scripted_player l bomb) e"
  by (auto simp: raises_def scripted_player_simps)

lemma board_after_ship:
  "fst (Board_drop_bomb 5 5 (snd (place_ship 2 0 0 True Board_default))) = Inr MISS
   \<and> still_floating (snd (Board_drop_bomb 5 5 (snd (place_ship 2 0 0 True Board_default))))"
  by (simp add: place_ship_def Board_default_def Board_init_def select_fields_def py_index_def
      py_slice_def py_slice_bound_def Let_def get_field_def Field_init_def set_field_def upt_rec
      still_floating_def Board_drop_bomb_def Field_drop_bomb_simps mark_ship_def)


section \<open>Ships and shots on a board\<close>

subsection \<open>Fields of a board\<close>

lemma set_field_simps [simp]:
  "size_B (set_field ref f b) = size_B b"
  "ships_B (set_field ref f b) = ships_B b"
  "remaining_ships (set_field ref f b) = remaining_ships b"
  "length (board (set_field ref f b)) = length (board b)"
  by (simp_all add: set_field_def)

lemma length_row_set_field [simp]:
  "length (board (set_field ref f b) ! r) = length (board b ! r)"
  by (cases "fst ref < length (board b)"; cases "r = fst ref")
    (simp_all add: set_field_def list_update_beyond not_less)

lemma get_field_set_field:
  "get_field (set_field ref f b) ref' =
     (if ref' = ref \<and> fst ref < length (board b) \<and> snd ref < length (board b ! fst ref)
      then f else get_field b ref')"
proof (cases "fst ref < length (board b)")
  case False
  then show ?thesis by (simp add: get_field_def set_field_def list_update_beyond not_less)
next
  case True
  show ?thesis
  proof (cases "fst ref' = fst ref")
    case False
    then show ?thesis by (auto simp: get_field_def set_field_def)
  next
    case r: True
    show ?thesis
    proof (cases "snd ref' = snd ref")
      case False
      with r True show ?thesis by (auto simp: get_field_def set_field_def)
    next
      case c: True
      with r have "ref' = ref" by (simp add: prod_eq_iff)
      with True show ?thesis
        by (auto simp: get_field_def set_field_def list_update_beyond not_less)
    qed
  qed
qed

lemma Field_drop_bomb_state:
  "state (snd (Field_drop_bomb f)) \<noteq> SHIP"
  "state f \<in> {SHIP, HIT} \<Longrightarrow> state (snd (Field_drop_bomb f)) = HIT"
  "state (snd (Field_drop_bomb f)) = HIT \<Longrightarrow> state f \<in> {SHIP, HIT}"
  by (cases "state f"; simp add: Field_drop_bomb_def transitions_simps)+

text \<open>What a shot changes: nothing, or one field, which takes its next state.\<close>

lemma Board_drop_bomb_cases:
  obtains (unchanged) "snd (Board_drop_bomb x y b) = b"
  | (field) ref where "snd (Board_drop_bomb x y b) = set_field ref (snd (Field_drop_bomb (get_field b ref))) b"
proof (cases "py_index (length (board b)) y")
  case None
  then show ?thesis using unchanged by (simp add: Board_drop_bomb_def)
next
  case (Some r)
  show ?thesis
  proof (cases "py_index (length (board b ! r)) x")
    case None
    with Some show ?thesis using unchanged by (simp add: Board_drop_bomb_def)
  next
    case c: (Some c)
    with Some show ?thesis using field [of "(r, c)"]
      by (simp add: Board_drop_bomb_def split: prod.splits)
  qed
qed

lemma Board_drop_bomb_simps [simp]:
  "size_B (snd (Board_drop_bomb x y b)) = size_B b"
  "ships_B (snd (Board_drop_bomb x y b)) = ships_B b"
  "remaining_ships (snd (Board_drop_bomb x y b)) = remaining_ships b"
  "length (board (snd (Board_drop_bomb x y b))) = length (board b)"
  "length (board (snd (Board_drop_bomb x y b)) ! r) = length (board b ! r)"
  by (cases x y b rule: Board_drop_bomb_cases; simp)+

lemma no_field_reverts:
  assumes "state (get_field (snd (Board_drop_bomb x y b)) ref) = SHIP"
  shows "state (get_field b ref) = SHIP"
proof (cases x y b rule: Board_drop_bomb_cases)
  case unchanged
  with assms show ?thesis by simp
next
  case (field ref')
  with assms Field_drop_bomb_state(1) [of "get_field b ref'"] show ?thesis
    by (simp add: get_field_set_field split: if_splits)
qed

lemma ship_field_after_bomb:
  assumes "state (get_field b ref) \<in> {SHIP, HIT}"
  shows "state (get_field (snd (Board_drop_bomb x y b)) ref) \<in> {SHIP, HIT}"
proof (cases x y b rule: Board_drop_bomb_cases)
  case unchanged
  with assms show ?thesis by simp
next
  case (field ref')
  with assms Field_drop_bomb_state(2) [of "get_field b ref'"] show ?thesis
    by (auto simp: get_field_set_field)
qed

lemma still_floating_iff_set:
  "still_floating b \<longleftrightarrow> (\<exists>ship \<in> set (ships_B b). \<exists>part \<in> set ship. state (get_field b part) = SHIP)"
  by (simp add: still_floating_def list_ex_iff)

lemma sunk_after_bomb:
  assumes "\<not> still_floating b"
  shows "\<not> still_floating (snd (Board_drop_bomb x y b))"
proof
  assume "still_floating (snd (Board_drop_bomb x y b))"
  then obtain ship part where sp: "ship \<in> set (ships_B b)" "part \<in> set ship"
    and "state (get_field (snd (Board_drop_bomb x y b)) part) = SHIP"
    unfolding still_floating_iff_set by auto
  then have "state (get_field b part) = SHIP" by (rule_tac no_field_reverts)
  with sp have "still_floating b" unfolding still_floating_iff_set by blast
  with assms show False by simp
qed

lemma sunk_after_bombs: "\<not> still_floating b \<Longrightarrow> \<not> still_floating (drop_bombs shots b)"
proof (induction shots arbitrary: b)
  case Nil
  then show ?case by simp
next
  case (Cons s shots)
  obtain x y where s: "s = (x, y)" by (cases s)
  have "\<not> still_floating (snd (Board_drop_bomb x y b))"
    using Cons.prems by (rule sunk_after_bomb)
  then have "\<not> still_floating (drop_bombs shots (snd (Board_drop_bomb x y b)))"
    by (rule Cons.IH)
  with s show ?case by simp
qed

subsection \<open>Placing a ship\<close>

lemma mark_ship_simps [simp]:
  "size_B (mark_ship flds b) = size_B b"
  "ships_B (mark_ship flds b) = ships_B b"
  "remaining_ships (mark_ship flds b) = remaining_ships b"
  "length (board (mark_ship flds b)) = length (board b)"
  "length (board (mark_ship flds b) ! r) = length (board b ! r)"
  by (induction flds arbitrary: b; simp add: mark_ship_def)+

lemma mark_ship_Cons:
  "mark_ship (ref # flds) b = mark_ship flds (set_field ref ((get_field b ref)\<lparr>state := SHIP\<rparr>) b)"
  by (simp add: mark_ship_def)

lemma state_mark_ship:
  "state (get_field (mark_ship flds b) ref) =
     (if ref \<in> set flds \<and> fst ref < length (board b) \<and> snd ref < length (board b ! fst ref)
      then SHIP else state (get_field b ref))"
proof (induction flds arbitrary: b)
  case Nil
  show ?case by (simp add: mark_ship_def)
next
  case (Cons a flds)
  show ?case
    by (auto simp: mark_ship_Cons Cons.IH get_field_set_field)
qed

lemma those_map_Some:
  "those (map f xs) = Some ys \<Longrightarrow> length ys = length xs \<and> (\<forall>i < length xs. f (xs ! i) = Some (ys ! i))"
proof (induction xs arbitrary: ys)
  case Nil
  then show ?case by simp
next
  case (Cons x xs)
  from Cons.prems obtain y ys' where y: "f x = Some y" and ys': "those (map f xs) = Some ys'"
    and ys: "ys = y # ys'"
    by (auto split: option.splits)
  from Cons.IH [OF ys'] y ys show ?case
    by (auto simp: nth_Cons split: nat.splits)
qed

lemma those_map_all_Some:
  "\<forall>x \<in> set xs. f x = Some (g x) \<Longrightarrow> those (map f xs) = Some (map g xs)"
  by (induction xs) simp_all

lemma those_map_None:
  "x \<in> set xs \<Longrightarrow> f x = None \<Longrightarrow> those (map f xs) = None"
  by (induction xs) (auto split: option.splits)

lemma py_index_Some: "py_index n i = Some k \<Longrightarrow> k < n"
  by (auto simp: py_index_def split: if_splits)

lemma py_slice_bound_le: "py_slice_bound n i \<le> n"
  by (auto simp: py_slice_bound_def max_def min_def)

lemma set_py_slice: "k \<in> set (py_slice n start stop) \<Longrightarrow> k < n"
  using py_slice_bound_le [of n stop] by (simp add: py_slice_def)

lemma select_fields_valid:
  assumes "select_fields sz x y h b = Some flds" and "ref \<in> set flds"
  shows "fst ref < length (board b) \<and> snd ref < length (board b ! fst ref)"
proof (cases h)
  case True
  with assms obtain r where r: "py_index (length (board b)) y = Some r"
    and flds: "flds = map (\<lambda>c. (r, c)) (py_slice (length (board b ! r)) x (x + sz))"
    by (auto simp: select_fields_def split: option.splits)
  from flds assms(2) py_index_Some [OF r] show ?thesis
    by (auto dest: set_py_slice)
next
  case False
  let ?rows = "py_slice (length (board b)) y (y + sz)"
  let ?f = "\<lambda>r. map_option (\<lambda>c. (r, c)) (py_index (length (board b ! r)) x)"
  from False assms(1) have t: "those (map ?f ?rows) = Some flds"
    by (simp add: select_fields_def)
  from those_map_Some [OF t] have len: "length flds = length ?rows"
    and el: "\<forall>i < length ?rows. ?f (?rows ! i) = Some (flds ! i)" by simp_all
  from assms(2) obtain i where i: "i < length flds" "ref = flds ! i"
    by (auto simp: in_set_conv_nth)
  with len el have "?f (?rows ! i) = Some ref" by simp
  then obtain c where c: "py_index (length (board b ! (?rows ! i))) x = Some c" and ref: "ref = (?rows ! i, c)"
    by auto
  have "?rows ! i \<in> set ?rows" using i len by simp
  then have "?rows ! i < length (board b)" by (rule set_py_slice)
  with py_index_Some [OF c] ref show ?thesis by simp
qed

lemma select_fields_remaining [simp]:
  "select_fields sz x y h (b\<lparr>remaining_ships := rs\<rparr>) = select_fields sz x y h b"
  by (simp add: select_fields_def cong: option.case_cong)

lemma get_field_remaining [simp]:
  "get_field (b\<lparr>remaining_ships := rs\<rparr>) ref = get_field b ref"
  "get_field (b\<lparr>ships_B := ss\<rparr>) ref = get_field b ref"
  by (simp_all add: get_field_def)

text \<open>
  What \<open>place_ship\<close> changes: on a failure at most the remaining ships; on success the
  fields selected, all EMPTY before, become the new ship.
\<close>

lemma place_ship_cases:
  obtains (failed) e rs where "place_ship sz x y h b = (Inl e, b\<lparr>remaining_ships := rs\<rparr>)"
  | (placed) flds where "select_fields sz x y h b = Some flds" "int (length flds) = sz"
      "\<forall>ref \<in> set flds. state (get_field b ref) = EMPTY" "sz \<in> set (remaining_ships b)"
      "place_ship sz x y h b =
         (Inr (), mark_ship flds (b\<lparr>remaining_ships := remove1 sz (remaining_ships b),
                                    ships_B := ships_B b @ [flds]\<rparr>))"
proof (cases "sz \<in> set (remaining_ships b)")
  case False
  then have "place_ship sz x y h b
      = (Inl (ValueError ''No more ships of this size allowed''), b\<lparr>remaining_ships := remaining_ships b\<rparr>)"
    by (simp add: place_ship_def)
  then show ?thesis by (rule failed)
next
  case True
  show ?thesis
  proof (cases "select_fields sz x y h b")
    case None
    with True have "place_ship sz x y h b
      = (Inl (ValueError ''Not enough space to place ship''), b\<lparr>remaining_ships := remove1 sz (remaining_ships b)\<rparr>)"
      by (simp add: place_ship_def Let_def)
    then show ?thesis by (rule failed)
  next
    case (Some flds)
    show ?thesis
    proof (cases "int (length flds) = sz \<and> (\<forall>ref \<in> set flds. state (get_field b ref) = EMPTY)")
      case ok: True
      with True Some have "place_ship sz x y h b =
         (Inr (), mark_ship flds (b\<lparr>remaining_ships := remove1 sz (remaining_ships b),
                                    ships_B := ships_B b @ [flds]\<rparr>))"
        by (simp add: place_ship_def Let_def list_ex_iff)
      with Some ok True show ?thesis using placed by blast
    next
      case False
      with True Some have "\<exists>e. place_ship sz x y h b
        = (Inl e, b\<lparr>remaining_ships := remove1 sz (remaining_ships b)\<rparr>)"
        by (auto simp: place_ship_def Let_def list_ex_iff)
      then show ?thesis using failed by blast
    qed
  qed
qed


subsection \<open>The invariant of a board\<close>

lemma board_inv_init: "board_inv (Board_init sz shps)"
  by (simp add: board_inv_def Board_init_def)

lemma board_inv_bomb:
  assumes "board_inv b"
  shows "board_inv (snd (Board_drop_bomb x y b))"
  using assms ship_field_after_bomb [of b _ x y]
  unfolding board_inv_def by simp

lemma board_inv_remaining: "board_inv (b\<lparr>remaining_ships := rs\<rparr>) = board_inv b"
  by (simp add: board_inv_def)

lemma board_inv_place:
  assumes "board_inv b"
  shows "board_inv (snd (place_ship sz x y h b))"
proof (cases sz x y h b rule: place_ship_cases)
  case (failed e rs)
  with assms show ?thesis by (simp add: board_inv_remaining)
next
  case (placed flds)
  let ?b = "b\<lparr>remaining_ships := remove1 sz (remaining_ships b), ships_B := ships_B b @ [flds]\<rparr>"
  have valid: "fst ref < length (board b) \<and> snd ref < length (board b ! fst ref)"
    if "ref \<in> set flds" for ref
    using select_fields_valid [OF placed(1) that] .
  have len: "length (board b) = nat (size_B b)" "\<And>r. r < nat (size_B b) \<Longrightarrow> length (board b ! r) = nat (size_B b)"
    using assms by (simp_all add: board_inv_def)
  have new: "fst part < nat (size_B b) \<and> snd part < nat (size_B b)
      \<and> state (get_field (mark_ship flds ?b) part) \<in> {SHIP, HIT}" if "part \<in> set flds" for part
    using valid [OF that] that len by (auto simp: state_mark_ship)
  have old: "fst part < nat (size_B b) \<and> snd part < nat (size_B b)
      \<and> state (get_field (mark_ship flds ?b) part) \<in> {SHIP, HIT}"
    if "ship \<in> set (ships_B b)" "part \<in> set ship" for ship part
    using assms that by (auto simp: board_inv_def state_mark_ship)
  from placed(5) len new old show ?thesis
    by (auto simp: board_inv_def)
qed

lemma reachable_board_inv: "reachable b \<Longrightarrow> board_inv b"
  by (induction rule: reachable.induct) (simp_all add: board_inv_init board_inv_place board_inv_bomb)

lemma floating_until_all_hit:
  assumes "board_inv b"
  shows "still_floating b \<longleftrightarrow>
     \<not> (\<forall>ship \<in> set (ships_B b). \<forall>part \<in> set ship. state (get_field b part) = HIT)"
  using assms unfolding board_inv_def still_floating_iff_set by fastforce

text \<open>
  C8. \<open>still_floating\<close> holds exactly when some field of some placed ship is in
  state SHIP. On every board that \<open>place_ship\<close> and \<open>drop_bomb\<close> can produce
  the fields of the placed ships are SHIP or HIT, so it holds until all of them are HIT.
  No shot brings a field back to SHIP, and once \<open>still_floating\<close> is false it stays
  false under any further shots.
\<close>

theorem still_floating_until_sunk:
  "(still_floating b \<longleftrightarrow>
      (\<exists>ship \<in> set (ships_B b). \<exists>part \<in> set ship. state (get_field b part) = SHIP))
   \<and> (reachable b \<longrightarrow>
        (still_floating b \<longleftrightarrow>
           \<not> (\<forall>ship \<in> set (ships_B b). \<forall>part \<in> set ship. state (get_field b part) = HIT)))
   \<and> (state (get_field b ref) \<noteq> SHIP \<longrightarrow> state (get_field (snd (Board_drop_bomb x y b)) ref) \<noteq> SHIP)
   \<and> (\<not> still_floating b \<longrightarrow> \<not> still_floating (drop_bombs shots b))"
  using still_floating_iff_set [of b] floating_until_all_hit [OF reachable_board_inv, of b]
    no_field_reverts [of x y b ref] sunk_after_bombs [of b shots]
  by blast


lemma sunk_board:
  "\<not> still_floating (drop_bombs [(0, 0), (1, 0)] (snd (place_ship 2 0 0 True (Board_init 3 [2]))))"
  by (simp add: place_ship_def Board_init_def select_fields_def py_index_def
      py_slice_def py_slice_bound_def Let_def get_field_def Field_init_def set_field_def upt_rec
      still_floating_def Board_drop_bomb_def Field_drop_bomb_simps mark_ship_def)

theorem still_floating_until_sunk_witness:
  "(still_floating (snd (place_ship 2 0 0 True (Board_init 3 [2])))
      \<longleftrightarrow> \<not> (\<forall>ship \<in> set (ships_B (snd (place_ship 2 0 0 True (Board_init 3 [2])))).
             \<forall>part \<in> set ship.
               state (get_field (snd (place_ship 2 0 0 True (Board_init 3 [2]))) part) = HIT))
   \<and> \<not> still_floating
       (drop_bombs [(0, 0), (2, 2)]
          (drop_bombs [(0, 0), (1, 0)] (snd (place_ship 2 0 0 True (Board_init 3 [2])))))"
proof -
  let ?b = "snd (place_ship 2 0 0 True (Board_init 3 [2]))"
  have r: "reachable ?b"
    by (intro reachable.intros)
  from still_floating_until_sunk [of ?b] r
    still_floating_until_sunk [of "drop_bombs [(0, 0), (1, 0)] ?b" _ _ _ "[(0, 0), (2, 2)]"] sunk_board
  show ?thesis by blast
qed

section \<open>Negative coordinates\<close>

lemma wrap_mod:
  assumes "- int n \<le> i" "i < int n"
  shows "i mod int n = (if 0 \<le> i then i else i + int n)"
proof (cases "0 \<le> i")
  case True
  with assms show ?thesis by simp
next
  case False
  with assms have "0 \<le> i + int n" "i + int n < int n" by simp_all
  then have a: "(i + int n) mod int n = i + int n" by (rule mod_pos_pos_trivial)
  have b: "(i + int n) mod int n = i mod int n" by (rule mod_add_self2)
  from a b False show ?thesis by simp
qed

lemma py_index_wrap:
  assumes "- int n \<le> i" "i < int n"
  shows "py_index n i = Some (nat (i mod int n))"
  using assms by (simp add: wrap_mod py_index_def)

lemma py_index_None_iff: "py_index n i = None \<longleftrightarrow> i < - int n \<or> int n \<le> i"
  by (auto simp: py_index_def)

lemma length_py_slice:
  "length (py_slice n start stop) = py_slice_bound n stop - py_slice_bound n start"
  by (simp add: py_slice_def)

lemma py_slice_fits:
  assumes "0 < sz"
  shows "(int (length (py_slice n x (x + sz))) = sz)
     = ((0 \<le> x \<and> x + sz \<le> int n) \<or> (- int n \<le> x \<and> x + sz < 0))"
  using assms unfolding length_py_slice py_slice_bound_def
  by (auto simp: max_def min_def split: if_splits)

lemma py_slice_wrap:
  assumes "0 < sz" "(0 \<le> x \<and> x + sz \<le> int n) \<or> (- int n \<le> x \<and> x + sz < 0)"
  shows "py_slice n x (x + sz) = [nat (x mod int n) ..< nat (x mod int n) + nat sz]"
proof -
  from assms have r: "- int n \<le> x" "x < int n" by auto
  have "py_slice_bound n x = nat (x mod int n)"
    using assms r by (auto simp: wrap_mod py_slice_bound_def max_def min_def)
  moreover have "py_slice_bound n (x + sz) = nat (x mod int n) + nat sz"
    using assms r by (auto simp: wrap_mod py_slice_bound_def max_def min_def nat_add_distrib)
  ultimately show ?thesis by (simp add: py_slice_def)
qed


lemma board_inv_lengths:
  assumes "board_inv b"
  shows "length (board b) = nat (size_B b)" "r < nat (size_B b) \<Longrightarrow> length (board b ! r) = nat (size_B b)"
  using assms by (simp_all add: board_inv_def)

lemma in_range_size:
  assumes "- N \<le> i" "i < N"
  shows "0 < N" "int (nat N) = N" "- int (nat N) \<le> i" "i < int (nat N)" "nat (i mod N) < nat N"
proof -
  from assms show "0 < N" by simp
  then show n: "int (nat N) = N" by simp
  from assms n show "- int (nat N) \<le> i" "i < int (nat N)" by simp_all
  from \<open>0 < N\<close> have "0 \<le> i mod N" "i mod N < N" by simp_all
  then show "nat (i mod N) < nat N" by simp
qed

lemma Board_drop_bomb_wrap:
  assumes "board_inv b"
    and "- size_B b \<le> x" "x < size_B b" "- size_B b \<le> y" "y < size_B b"
  shows "Board_drop_bomb x y b =
     (case Field_drop_bomb (get_field b (nat (y mod size_B b), nat (x mod size_B b))) of
        (result, f) \<Rightarrow> (result, set_field (nat (y mod size_B b), nat (x mod size_B b)) f b))"
proof -
  let ?n = "nat (size_B b)"
  have r: "py_index ?n y = Some (nat (y mod size_B b))"
    using py_index_wrap [of ?n y] in_range_size [OF assms(4,5)] by simp
  have c: "py_index ?n x = Some (nat (x mod size_B b))"
    using py_index_wrap [of ?n x] in_range_size [OF assms(2,3)] by simp
  have l: "length (board b ! nat (y mod size_B b)) = ?n"
    using board_inv_lengths(2) [OF assms(1)] in_range_size(5) [OF assms(4,5)] by simp
  show ?thesis
    by (simp add: Board_drop_bomb_def board_inv_lengths(1) [OF assms(1)] r c l)
qed

lemma Board_drop_bomb_wrap_returns:
  assumes "board_inv b"
    and "- size_B b \<le> x" "x < size_B b" "- size_B b \<le> y" "y < size_B b"
  shows "\<exists>result. fst (Board_drop_bomb x y b) = Inr result"
proof -
  obtain result f where "Field_drop_bomb (get_field b (nat (y mod size_B b), nat (x mod size_B b))) = (Inr result, f)"
    using Field_drop_bomb_total by blast
  then show ?thesis by (simp add: Board_drop_bomb_wrap [OF assms])
qed

lemma place_ship_ok_iff:
  assumes "sz \<in> set (remaining_ships b)" "select_fields sz x y h b = Some flds"
  shows "(fst (place_ship sz x y h b) = Inr ())
     = (int (length flds) = sz \<and> (\<forall>ref \<in> set flds. state (get_field b ref) = EMPTY))"
  using assms by (simp add: place_ship_def Let_def list_ex_iff)

lemma place_ship_ok_board:
  assumes "fst (place_ship sz x y h b) = Inr ()" "select_fields sz x y h b = Some flds"
  shows "ships_B (snd (place_ship sz x y h b)) = ships_B b @ [flds]"
    "\<forall>part \<in> set flds. state (get_field (snd (place_ship sz x y h b)) part) = SHIP"
proof -
  from assms have p: "snd (place_ship sz x y h b) =
      mark_ship flds (b\<lparr>remaining_ships := remove1 sz (remaining_ships b), ships_B := ships_B b @ [flds]\<rparr>)"
    by (cases sz x y h b rule: place_ship_cases) simp_all
  show "ships_B (snd (place_ship sz x y h b)) = ships_B b @ [flds]"
    by (simp add: p)
  show "\<forall>part \<in> set flds. state (get_field (snd (place_ship sz x y h b)) part) = SHIP"
    using select_fields_valid [OF assms(2)] by (simp add: p state_mark_ship)
qed

lemma select_fields_horizontal:
  assumes "board_inv b" "- size_B b \<le> y" "y < size_B b"
  shows "select_fields sz x y True b =
     Some (map (\<lambda>c. (nat (y mod size_B b), c)) (py_slice (nat (size_B b)) x (x + sz)))"
proof -
  let ?n = "nat (size_B b)"
  have r: "py_index ?n y = Some (nat (y mod size_B b))"
    using py_index_wrap [of ?n y] in_range_size [OF assms(2,3)] by simp
  have l: "length (board b ! nat (y mod size_B b)) = ?n"
    using board_inv_lengths(2) [OF assms(1)] in_range_size(5) [OF assms(2,3)] by simp
  show ?thesis
    by (simp add: select_fields_def board_inv_lengths(1) [OF assms(1)] r l)
qed

lemma select_fields_vertical:
  assumes "board_inv b" "- size_B b \<le> x" "x < size_B b"
  shows "select_fields sz x y False b =
     Some (map (\<lambda>r. (r, nat (x mod size_B b))) (py_slice (nat (size_B b)) y (y + sz)))"
proof -
  let ?n = "nat (size_B b)"
  let ?rows = "py_slice ?n y (y + sz)"
  have c: "py_index ?n x = Some (nat (x mod size_B b))"
    using py_index_wrap [of ?n x] in_range_size [OF assms(2,3)] by simp
  have "\<forall>r \<in> set ?rows. map_option (\<lambda>c. (r, c)) (py_index (length (board b ! r)) x)
      = Some (r, nat (x mod size_B b))"
    using board_inv_lengths(2) [OF assms(1)] c by (auto dest: set_py_slice)
  then have "those (map (\<lambda>r. map_option (\<lambda>c. (r, c)) (py_index (length (board b ! r)) x)) ?rows)
      = Some (map (\<lambda>r. (r, nat (x mod size_B b))) ?rows)"
    by (rule those_map_all_Some)
  then show ?thesis
    by (simp add: select_fields_def board_inv_lengths(1) [OF assms(1)])
qed


lemma place_ship_horizontal_iff:
  assumes "board_inv b" "sz \<in> set (remaining_ships b)" "0 < sz"
    and "- size_B b \<le> y" "y < size_B b"
  shows "(fst (place_ship sz x y True b) = Inr ())
     = (((0 \<le> x \<and> x + sz \<le> size_B b) \<or> (- size_B b \<le> x \<and> x + sz < 0))
        \<and> (\<forall>c \<in> {nat (x mod size_B b) ..< nat (x mod size_B b) + nat sz}.
              state (get_field b (nat (y mod size_B b), c)) = EMPTY))"
proof -
  let ?n = "nat (size_B b)"
  let ?fits = "(0 \<le> x \<and> x + sz \<le> size_B b) \<or> (- size_B b \<le> x \<and> x + sz < 0)"
  let ?flds = "map (\<lambda>c. (nat (y mod size_B b), c)) (py_slice ?n x (x + sz))"
  have n: "int ?n = size_B b" using in_range_size(2) [OF assms(4,5)] .
  have sel: "select_fields sz x y True b = Some ?flds"
    using assms(1,4,5) by (rule select_fields_horizontal)
  have len: "(int (length ?flds) = sz) = ?fits"
    using py_slice_fits [OF assms(3), of ?n x] n by simp
  show ?thesis
  proof (cases ?fits)
    case False
    with len show ?thesis by (simp add: place_ship_ok_iff [OF assms(2) sel])
  next
    case True
    then have "py_slice ?n x (x + sz) = [nat (x mod size_B b) ..< nat (x mod size_B b) + nat sz]"
      using py_slice_wrap [OF assms(3), of x ?n] n by simp
    with True len show ?thesis by (simp add: place_ship_ok_iff [OF assms(2) sel])
  qed
qed

lemma place_ship_vertical_iff:
  assumes "board_inv b" "sz \<in> set (remaining_ships b)" "0 < sz"
    and "- size_B b \<le> x" "x < size_B b"
  shows "(fst (place_ship sz x y False b) = Inr ())
     = (((0 \<le> y \<and> y + sz \<le> size_B b) \<or> (- size_B b \<le> y \<and> y + sz < 0))
        \<and> (\<forall>r \<in> {nat (y mod size_B b) ..< nat (y mod size_B b) + nat sz}.
              state (get_field b (r, nat (x mod size_B b))) = EMPTY))"
proof -
  let ?n = "nat (size_B b)"
  let ?fits = "(0 \<le> y \<and> y + sz \<le> size_B b) \<or> (- size_B b \<le> y \<and> y + sz < 0)"
  let ?flds = "map (\<lambda>r. (r, nat (x mod size_B b))) (py_slice ?n y (y + sz))"
  have n: "int ?n = size_B b" using in_range_size(2) [OF assms(4,5)] .
  have sel: "select_fields sz x y False b = Some ?flds"
    using assms(1,4,5) by (rule select_fields_vertical)
  have len: "(int (length ?flds) = sz) = ?fits"
    using py_slice_fits [OF assms(3), of ?n y] n by simp
  show ?thesis
  proof (cases ?fits)
    case False
    with len show ?thesis by (simp add: place_ship_ok_iff [OF assms(2) sel])
  next
    case True
    then have "py_slice ?n y (y + sz) = [nat (y mod size_B b) ..< nat (y mod size_B b) + nat sz]"
      using py_slice_wrap [OF assms(3), of y ?n] n by simp
    with True len show ?thesis by (simp add: place_ship_ok_iff [OF assms(2) sel])
  qed
qed

lemma placed_horizontal:
  assumes "board_inv b" "0 < sz" "- size_B b \<le> y" "y < size_B b"
    and "fst (place_ship sz x y True b) = Inr ()"
  shows "ships_B (snd (place_ship sz x y True b))
       = ships_B b @ [map (\<lambda>c. (nat (y mod size_B b), c))
                       [nat (x mod size_B b) ..< nat (x mod size_B b) + nat sz]]
     \<and> (\<forall>c \<in> {nat (x mod size_B b) ..< nat (x mod size_B b) + nat sz}.
           state (get_field (snd (place_ship sz x y True b)) (nat (y mod size_B b), c)) = SHIP)"
proof -
  let ?n = "nat (size_B b)"
  let ?flds = "map (\<lambda>c. (nat (y mod size_B b), c)) (py_slice ?n x (x + sz))"
  have n: "int ?n = size_B b" using in_range_size(2) [OF assms(3,4)] .
  have sel: "select_fields sz x y True b = Some ?flds"
    using assms(1,3,4) by (rule select_fields_horizontal)
  from assms(5) have rem: "sz \<in> set (remaining_ships b)"
    by (auto simp: place_ship_def split: if_splits)
  from assms(5) have "(0 \<le> x \<and> x + sz \<le> size_B b) \<or> (- size_B b \<le> x \<and> x + sz < 0)"
    by (simp add: place_ship_horizontal_iff [OF assms(1) rem assms(2,3,4)])
  then have sl: "py_slice ?n x (x + sz) = [nat (x mod size_B b) ..< nat (x mod size_B b) + nat sz]"
    using py_slice_wrap [OF assms(2), of x ?n] n by simp
  from place_ship_ok_board [OF assms(5) sel] sl show ?thesis by simp
qed

lemma placed_vertical:
  assumes "board_inv b" "0 < sz" "- size_B b \<le> x" "x < size_B b"
    and "fst (place_ship sz x y False b) = Inr ()"
  shows "ships_B (snd (place_ship sz x y False b))
       = ships_B b @ [map (\<lambda>r. (r, nat (x mod size_B b)))
                       [nat (y mod size_B b) ..< nat (y mod size_B b) + nat sz]]
     \<and> (\<forall>r \<in> {nat (y mod size_B b) ..< nat (y mod size_B b) + nat sz}.
           state (get_field (snd (place_ship sz x y False b)) (r, nat (x mod size_B b))) = SHIP)"
proof -
  let ?n = "nat (size_B b)"
  let ?flds = "map (\<lambda>r. (r, nat (x mod size_B b))) (py_slice ?n y (y + sz))"
  have n: "int ?n = size_B b" using in_range_size(2) [OF assms(3,4)] .
  have sel: "select_fields sz x y False b = Some ?flds"
    using assms(1,3,4) by (rule select_fields_vertical)
  from assms(5) have rem: "sz \<in> set (remaining_ships b)"
    by (auto simp: place_ship_def split: if_splits)
  from assms(5) have "(0 \<le> y \<and> y + sz \<le> size_B b) \<or> (- size_B b \<le> y \<and> y + sz < 0)"
    by (simp add: place_ship_vertical_iff [OF assms(1) rem assms(2,3,4)])
  then have sl: "py_slice ?n y (y + sz) = [nat (y mod size_B b) ..< nat (y mod size_B b) + nat sz]"
    using py_slice_wrap [OF assms(2), of y ?n] n by simp
  from place_ship_ok_board [OF assms(5) sel] sl show ?thesis by simp
qed


text \<open>
  C9, amended. On a board of size \<open>N\<close>, \<open>drop_bomb(x, y)\<close> with \<open>x\<close> and
  \<open>y\<close> in \<open>[-N, N)\<close> does not raise: it is \<open>drop_bomb\<close> of the field of row
  \<open>y mod N\<close>, column \<open>x mod N\<close>. \<open>place_ship\<close> of a size still allowed, with
  the coordinate across the ship in \<open>[-N, N)\<close>, succeeds exactly when the start
  \<open>s\<close> along the ship has \<open>0 \<le> s\<close> and \<open>s + size \<le> N\<close>, or \<open>-N \<le> s\<close> and
  \<open>s + size < 0\<close>, and the \<open>size\<close> fields from \<open>s mod N\<close> on, in row or column
  \<open>y mod N\<close> or \<open>x mod N\<close>, are EMPTY; these fields then are the new ship and are
  SHIP. A negative start along the ship with \<open>s + size \<ge> 0\<close> is rejected.
\<close>

theorem negative_coordinates_wrap:
  "(reachable b \<longrightarrow> - size_B b \<le> x \<longrightarrow> x < size_B b \<longrightarrow> - size_B b \<le> y \<longrightarrow> y < size_B b \<longrightarrow>
      (\<exists>result. fst (Board_drop_bomb x y b) = Inr result)
      \<and> Board_drop_bomb x y b =
          (case Field_drop_bomb (get_field b (nat (y mod size_B b), nat (x mod size_B b))) of
             (result, f) \<Rightarrow> (result, set_field (nat (y mod size_B b), nat (x mod size_B b)) f b)))
   \<and> (reachable b \<longrightarrow> sz \<in> set (remaining_ships b) \<longrightarrow> 0 < sz
      \<longrightarrow> - size_B b \<le> y \<longrightarrow> y < size_B b \<longrightarrow>
      (fst (place_ship sz x y True b) = Inr ())
        = (((0 \<le> x \<and> x + sz \<le> size_B b) \<or> (- size_B b \<le> x \<and> x + sz < 0))
           \<and> (\<forall>c \<in> {nat (x mod size_B b) ..< nat (x mod size_B b) + nat sz}.
                 state (get_field b (nat (y mod size_B b), c)) = EMPTY)))
   \<and> (reachable b \<longrightarrow> sz \<in> set (remaining_ships b) \<longrightarrow> 0 < sz
      \<longrightarrow> - size_B b \<le> x \<longrightarrow> x < size_B b \<longrightarrow>
      (fst (place_ship sz x y False b) = Inr ())
        = (((0 \<le> y \<and> y + sz \<le> size_B b) \<or> (- size_B b \<le> y \<and> y + sz < 0))
           \<and> (\<forall>r \<in> {nat (y mod size_B b) ..< nat (y mod size_B b) + nat sz}.
                 state (get_field b (r, nat (x mod size_B b))) = EMPTY)))
   \<and> (reachable b \<longrightarrow> 0 < sz \<longrightarrow> - size_B b \<le> y \<longrightarrow> y < size_B b
      \<longrightarrow> fst (place_ship sz x y True b) = Inr () \<longrightarrow>
      ships_B (snd (place_ship sz x y True b))
        = ships_B b @ [map (\<lambda>c. (nat (y mod size_B b), c))
                        [nat (x mod size_B b) ..< nat (x mod size_B b) + nat sz]]
      \<and> (\<forall>c \<in> {nat (x mod size_B b) ..< nat (x mod size_B b) + nat sz}.
            state (get_field (snd (place_ship sz x y True b)) (nat (y mod size_B b), c)) = SHIP))
   \<and> (reachable b \<longrightarrow> 0 < sz \<longrightarrow> - size_B b \<le> x \<longrightarrow> x < size_B b
      \<longrightarrow> fst (place_ship sz x y False b) = Inr () \<longrightarrow>
      ships_B (snd (place_ship sz x y False b))
        = ships_B b @ [map (\<lambda>r. (r, nat (x mod size_B b)))
                        [nat (y mod size_B b) ..< nat (y mod size_B b) + nat sz]]
      \<and> (\<forall>r \<in> {nat (y mod size_B b) ..< nat (y mod size_B b) + nat sz}.
            state (get_field (snd (place_ship sz x y False b)) (r, nat (x mod size_B b))) = SHIP))"
proof (intro conjI impI)
  assume r: "reachable b" and x: "- size_B b \<le> x" "x < size_B b" and y: "- size_B b \<le> y" "y < size_B b"
  show "\<exists>result. fst (Board_drop_bomb x y b) = Inr result"
    using reachable_board_inv [OF r] x y by (rule Board_drop_bomb_wrap_returns)
  show "Board_drop_bomb x y b =
          (case Field_drop_bomb (get_field b (nat (y mod size_B b), nat (x mod size_B b))) of
             (result, f) \<Rightarrow> (result, set_field (nat (y mod size_B b), nat (x mod size_B b)) f b))"
    using reachable_board_inv [OF r] x y by (rule Board_drop_bomb_wrap)
next
  assume "reachable b" "sz \<in> set (remaining_ships b)" "0 < sz" "- size_B b \<le> y" "y < size_B b"
  then show "(fst (place_ship sz x y True b) = Inr ())
        = (((0 \<le> x \<and> x + sz \<le> size_B b) \<or> (- size_B b \<le> x \<and> x + sz < 0))
           \<and> (\<forall>c \<in> {nat (x mod size_B b) ..< nat (x mod size_B b) + nat sz}.
                 state (get_field b (nat (y mod size_B b), c)) = EMPTY))"
    using place_ship_horizontal_iff [OF reachable_board_inv] by blast
next
  assume "reachable b" "sz \<in> set (remaining_ships b)" "0 < sz" "- size_B b \<le> x" "x < size_B b"
  then show "(fst (place_ship sz x y False b) = Inr ())
        = (((0 \<le> y \<and> y + sz \<le> size_B b) \<or> (- size_B b \<le> y \<and> y + sz < 0))
           \<and> (\<forall>r \<in> {nat (y mod size_B b) ..< nat (y mod size_B b) + nat sz}.
                 state (get_field b (r, nat (x mod size_B b))) = EMPTY))"
    using place_ship_vertical_iff [OF reachable_board_inv] by blast
next
  assume a: "reachable b" "0 < sz" "- size_B b \<le> y" "y < size_B b" "fst (place_ship sz x y True b) = Inr ()"
  from placed_horizontal [OF reachable_board_inv [OF a(1)] a(2-5)]
  show "ships_B (snd (place_ship sz x y True b))
        = ships_B b @ [map (\<lambda>c. (nat (y mod size_B b), c))
                        [nat (x mod size_B b) ..< nat (x mod size_B b) + nat sz]]"
    and "\<forall>c \<in> {nat (x mod size_B b) ..< nat (x mod size_B b) + nat sz}.
            state (get_field (snd (place_ship sz x y True b)) (nat (y mod size_B b), c)) = SHIP"
    by blast+
next
  assume a: "reachable b" "0 < sz" "- size_B b \<le> x" "x < size_B b" "fst (place_ship sz x y False b) = Inr ()"
  from placed_vertical [OF reachable_board_inv [OF a(1)] a(2-5)]
  show "ships_B (snd (place_ship sz x y False b))
        = ships_B b @ [map (\<lambda>r. (r, nat (x mod size_B b)))
                        [nat (y mod size_B b) ..< nat (y mod size_B b) + nat sz]]"
    and "\<forall>r \<in> {nat (y mod size_B b) ..< nat (y mod size_B b) + nat sz}.
            state (get_field (snd (place_ship sz x y False b)) (r, nat (x mod size_B b))) = SHIP"
    by blast+
qed

lemma get_field_init:
  "r < nat sz \<Longrightarrow> c < nat sz \<Longrightarrow> get_field (Board_init sz shps) (r, c) = Field_init"
  by (simp add: get_field_def Board_init_def)

lemma Board_init_simps:
  "size_B (Board_init sz shps) = sz"
  "ships_B (Board_init sz shps) = []"
  "remaining_ships (Board_init sz shps) = shps"
  by (simp_all add: Board_init_def)

theorem negative_coordinates_wrap_witness:
  "fst (Board_drop_bomb (-1) (-1) (Board_init 12 [2, 3, 3, 4, 5])) = Inr MISS
   \<and> fst (place_ship 3 (-5) (-1) True (Board_init 12 [2, 3, 3, 4, 5])) = Inr ()
   \<and> ships_B (snd (place_ship 3 (-5) (-1) True (Board_init 12 [2, 3, 3, 4, 5])))
       = [[(11, 7), (11, 8), (11, 9)]]
   \<and> fst (place_ship 3 (-5) (-1) False (Board_init 12 [2, 3, 3, 4, 5])) \<noteq> Inr ()"
proof -
  let ?b = "Board_init 12 [2, 3, 3, 4, 5]"
  have r: "reachable ?b" by (rule reachable.init)
  have e: "state (get_field ?b (11, c)) = EMPTY" if "c < 12" for c
    using that by (simp add: get_field_init Field_init_def)
  have m: "(- 1) mod (12::int) = 11" "(- 5) mod (12::int) = 7" by simp_all
  have u: "[7 ..< 10] = [7, 8, 9::nat]" by (simp add: upt_rec)
  from negative_coordinates_wrap [where b = ?b and x = "-1" and y = "-1"] r
  have bomb: "fst (Board_drop_bomb (-1) (-1) ?b) = Inr MISS"
    by (simp add: Board_init_simps m get_field_init Field_init_def Field_drop_bomb_simps)
  from negative_coordinates_wrap [where b = ?b and x = "-5" and y = "-1" and sz = 3] r
  have ok: "fst (place_ship 3 (-5) (-1) True ?b) = Inr ()"
    by (simp add: Board_init_simps m e)
  from negative_coordinates_wrap [where b = ?b and x = "-5" and y = "-1" and sz = 3] r ok
  have ships: "ships_B (snd (place_ship 3 (-5) (-1) True ?b)) = [[(11, 7), (11, 8), (11, 9)]]"
    by (simp add: Board_init_simps m u)
  from negative_coordinates_wrap [where b = ?b and x = "-5" and y = "-1" and sz = 3] r
  have rej: "fst (place_ship 3 (-5) (-1) False ?b) \<noteq> Inr ()"
    by (simp add: Board_init_simps)
  from bomb ok ships rej show ?thesis by simp
qed

text \<open>
  C9 as stated fails: on a new board of size 12, \<open>place_ship(3, -3, 0, True)\<close> is
  rejected for lack of space, although -3 wraps to column 9 and the fields of columns 9,
  10 and 11 of row 0 are EMPTY.
\<close>

theorem place_ship_negative_start_rejected:
  "fst (place_ship 3 (-3) 0 True (Board_init 12 [2, 3, 3, 4, 5]))
     = Inl (ValueError ''Not enough space to place ship'')
   \<and> state (get_field (Board_init 12 [2, 3, 3, 4, 5]) (0, 9)) = EMPTY
   \<and> state (get_field (Board_init 12 [2, 3, 3, 4, 5]) (0, 10)) = EMPTY
   \<and> state (get_field (Board_init 12 [2, 3, 3, 4, 5]) (0, 11)) = EMPTY"
  by (simp add: place_ship_def Board_init_def select_fields_def py_index_def py_slice_def
      py_slice_bound_def Let_def get_field_def Field_init_def)

section \<open>What a failing call leaves behind\<close>

text \<open>
  \<open>Board.drop_bomb\<close> raises exactly for a coordinate outside \<open>[-N, N)\<close>, and
  then changes nothing. A failing \<open>place_ship\<close> changes no field and no ship, and
  has removed the size from the remaining ships if it was there.
\<close>

lemma Board_drop_bomb_fails_iff:
  assumes "board_inv b"
  shows "(\<exists>e. fst (Board_drop_bomb x y b) = Inl e)
     \<longleftrightarrow> \<not> (- size_B b \<le> x \<and> x < size_B b \<and> - size_B b \<le> y \<and> y < size_B b)"
proof (cases "- size_B b \<le> x \<and> x < size_B b \<and> - size_B b \<le> y \<and> y < size_B b")
  case True
  with Board_drop_bomb_wrap_returns [OF assms, of x y] show ?thesis by auto
next
  case False
  let ?n = "nat (size_B b)"
  have len: "length (board b) = ?n" using assms by (rule board_inv_lengths(1))
  show ?thesis
  proof (cases "py_index ?n y")
    case None
    with False len show ?thesis by (simp add: Board_drop_bomb_def)
  next
    case (Some r)
    then have y: "- size_B b \<le> y \<and> y < size_B b"
      by (auto simp: py_index_def split: if_splits)
    from Some have "r < ?n" by (rule py_index_Some)
    then have l: "length (board b ! r) = ?n" using assms by (simp add: board_inv_lengths(2))
    from False y have "py_index ?n x = None"
      by (auto simp: py_index_def)
    with Some False len l show ?thesis by (simp add: Board_drop_bomb_def)
  qed
qed

lemma Board_drop_bomb_failure_unchanged:
  assumes "fst (Board_drop_bomb x y b) = Inl e"
  shows "snd (Board_drop_bomb x y b) = b"
proof (cases "py_index (length (board b)) y")
  case None
  then show ?thesis by (simp add: Board_drop_bomb_def)
next
  case (Some r)
  show ?thesis
  proof (cases "py_index (length (board b ! r)) x")
    case None
    with Some show ?thesis by (simp add: Board_drop_bomb_def)
  next
    case c: (Some c)
    obtain result f where "Field_drop_bomb (get_field b (r, c)) = (Inr result, f)"
      using Field_drop_bomb_total by blast
    with Some c assms show ?thesis by (simp add: Board_drop_bomb_def)
  qed
qed

lemma place_ship_failure:
  assumes "fst (place_ship sz x y h b) = Inl e"
  shows "board (snd (place_ship sz x y h b)) = board b"
    and "ships_B (snd (place_ship sz x y h b)) = ships_B b"
    and "remaining_ships (snd (place_ship sz x y h b)) = remove1 sz (remaining_ships b)"
  using assms
  by (auto simp: place_ship_def Let_def remove1_idem split: if_splits option.splits)

text \<open>
  C3. On a board of size 12 \<open>drop_bomb(-1, -1)\<close> does not fail: it returns MISS and
  the field of row 11, column 11 goes from EMPTY to MISSED. In the lenient loop the turn
  of an attacker that shoots at (-1, -1) is not skipped: the board of the target is
  changed and the attacker gets its feedback.
\<close>

theorem negative_shot_not_rejected:
  "fst (Board_drop_bomb (-1) (-1) (Board_init 12 [2, 3, 3, 4, 5])) = Inr MISS
   \<and> state (get_field (Board_init 12 [2, 3, 3, 4, 5]) (11, 11)) = EMPTY
   \<and> state (get_field (snd (Board_drop_bomb (-1) (-1) (Board_init 12 [2, 3, 3, 4, 5]))) (11, 11))
       = MISSED
   \<and> Game_turn P1
       (new_round (scripted_game (recording_player (-1, -1)) (recording_player (-1, -1)) 144 0)
          (recording_player (-1, -1), []) (recording_player (-1, -1), []))
     = Inr ((new_round (scripted_game (recording_player (-1, -1)) (recording_player (-1, -1)) 144 0)
          (recording_player (-1, -1), []) (recording_player (-1, -1), []))
            \<lparr>p1 := (recording_player (-1, -1), [(-1, -1, MISS)]),
             p2_board := snd (Board_drop_bomb (-1) (-1) (Board_init 12 [2, 3, 3, 4, 5]))\<rparr>)"
proof -
  let ?b = "Board_init 12 [2, 3, 3, 4, 5]"
  define b' where "b' = snd (Board_drop_bomb (-1) (-1) ?b)"
  have board: "fst (Board_drop_bomb (-1) (-1) ?b) = Inr MISS
      \<and> state (get_field ?b (11, 11)) = EMPTY \<and> state (get_field b' (11, 11)) = MISSED"
    unfolding b'_def
    by (simp add: Board_drop_bomb_def Board_init_def py_index_def get_field_def set_field_def
        Field_init_def Field_drop_bomb_simps)
  then have bomb: "Board_drop_bomb (-1) (-1) ?b = (Inr MISS, b')"
    by (simp add: b'_def prod_eq_iff)
  have turn: "Game_turn P1
       (new_round (scripted_game (recording_player (-1, -1)) (recording_player (-1, -1)) 144 0)
          (recording_player (-1, -1), []) (recording_player (-1, -1), []))
     = Inr ((new_round (scripted_game (recording_player (-1, -1)) (recording_player (-1, -1)) 144 0)
          (recording_player (-1, -1), []) (recording_player (-1, -1), []))
            \<lparr>p1 := (recording_player (-1, -1), [(-1, -1, MISS)]), p2_board := b'\<rparr>)"
    by (simp add: Game_turn_def Game_report_eq new_round_def Board_default_def
        call_drop_bomb_def call_bombed_feedback_def recording_player_simps reraised_def bomb
        scripted_game_simps)
  from board turn show ?thesis by (simp add: b'_def)
qed

section \<open>The delay of the feedback\<close>






lemma log_simps [simp]:
  "feedback_log (c, s, fl, bl) = fl"
  "bombed_log (c, s, fl, bl) = bl"
  by (simp_all add: feedback_log_def bombed_log_def)





lemma buffer_of_set [simp]:
  "buffer_of a (set_board b bd st) = buffer_of a st"
  "buffer_of a (set_player b p st) = buffer_of a st"
  "buffer_of a (set_buffer b buf st) = (if a = b then buf else buffer_of a st)"
  by (cases a; cases b; simp)+




lemma other_other [simp]: "other (other a) = a"
  by (cases a) simp_all



lemma turn_loop_Inr:
  assumes "turn_loop body mt a turn st = Inr st'"
    and "I st"
    and "\<And>a st st'. I st \<Longrightarrow> body a st = Inr st' \<Longrightarrow> I st'"
  shows "I st'"
  using assms
proof (induction body mt a turn st rule: turn_loop.induct)
  case (1 body mt a turn st)
  show ?case
  proof (cases "\<not> still_floating (board_of a st) \<or> turn + 1 > mt * 2")
    case True
    with "1.prems"(1,2) show ?thesis by (simp add: turn_loop_break)
  next
    case False
    show ?thesis
    proof (cases "body a st")
      case (Inl e)
      with False "1.prems"(1) show ?thesis by (subst (asm) turn_loop.simps) simp
    next
      case (Inr st1)
      with False "1.prems"(1) have l: "turn_loop body mt (other a) (turn + 1) st1 = Inr st'"
        by (subst (asm) turn_loop.simps) simp
      have i: "I st1" using "1.prems"(2) Inr by (rule "1.prems"(3))
      show ?thesis
        using l i "1.prems"(3) by (rule "1.IH" [OF False Inr])
    qed
  qed
qed



section \<open>The two boards of a round\<close>

subsection \<open>The shape of the boards through a round\<close>

lemma default_shape_default: "default_shape Board_default"
  by (simp add: default_shape_def Board_default_def Board_init_def list_all_iff)

lemma default_shape_rows:
  "default_shape b \<longleftrightarrow>
     size_B b = 12 \<and> length (board b) = 12 \<and> (\<forall>r < 12. length (board b ! r) = 12)
     \<and> (\<forall>sz. count_list (remaining_ships b) sz \<le> count_list [2, 3, 3, 4, 5] sz)"
proof -
  have rows: "list_all (\<lambda>row. length row = 12) (board b)
      = (\<forall>r < length (board b). length (board b ! r) = 12)"
    by (rule list_all_length)
  have rem: "list_all (\<lambda>sz. count_list rs sz \<le> count_list ds sz) rs
      = (\<forall>sz. count_list rs sz \<le> count_list ds sz)" for rs ds :: "int list"
  proof
    assume a: "list_all (\<lambda>sz. count_list rs sz \<le> count_list ds sz) rs"
    show "\<forall>sz. count_list rs sz \<le> count_list ds sz"
    proof
      fix sz
      show "count_list rs sz \<le> count_list ds sz"
      proof (cases "sz \<in> set rs")
        case True
        with a show ?thesis by (simp add: list_all_iff)
      next
        case False
        then show ?thesis by (simp add: count_notin)
      qed
    qed
  next
    assume "\<forall>sz. count_list rs sz \<le> count_list ds sz"
    then show "list_all (\<lambda>sz. count_list rs sz \<le> count_list ds sz) rs"
      by (simp add: list_all_iff)
  qed
  show ?thesis unfolding default_shape_def rows rem by auto
qed

lemma default_shape_bomb:
  "default_shape b \<Longrightarrow> default_shape (snd (Board_drop_bomb x y b))"
  by (simp add: default_shape_rows)

lemma count_list_remove1_le: "count_list (remove1 x xs) y \<le> count_list xs y"
  by (induction xs) simp_all

lemma place_ship_remaining_subset:
  "count_list (remaining_ships (snd (place_ship sz x y h b))) z \<le> count_list (remaining_ships b) z"
proof (cases sz x y h b rule: place_ship_cases)
  case (failed e rs)
  show ?thesis
  proof (cases "sz \<in> set (remaining_ships b)")
    case False
    then show ?thesis by (simp add: place_ship_def)
  next
    case True
    from failed have "fst (place_ship sz x y h b) = Inl e" by simp
    then have "remaining_ships (snd (place_ship sz x y h b)) = remove1 sz (remaining_ships b)"
      by (rule place_ship_failure(3))
    then show ?thesis by (simp add: count_list_remove1_le)
  qed
next
  case (placed flds)
  then show ?thesis by (simp add: count_list_remove1_le)
qed

lemma place_ship_shape:
  "size_B (snd (place_ship sz x y h b)) = size_B b"
  "length (board (snd (place_ship sz x y h b))) = length (board b)"
  "length (board (snd (place_ship sz x y h b)) ! r) = length (board b ! r)"
  by (cases sz x y h b rule: place_ship_cases; simp)+

lemma default_shape_place:
  assumes "default_shape b"
  shows "default_shape (snd (place_ship sz x y h b))"
proof -
  from assms have s: "size_B b = 12" "length (board b) = 12" "\<forall>r < 12. length (board b ! r) = 12"
    and r: "\<forall>z. count_list (remaining_ships b) z \<le> count_list [2, 3, 3, 4, 5] z"
    unfolding default_shape_rows by blast+
  have c: "count_list (remaining_ships (snd (place_ship sz x y h b))) z \<le> count_list [2, 3, 3, 4, 5] z" for z
    by (rule order_trans [OF place_ship_remaining_subset r [rule_format]])
  show ?thesis unfolding default_shape_rows place_ship_shape
    using s c by blast
qed

lemma Game_place_ships_shape:
  "Game_place_ships ls b = Inr b' \<Longrightarrow> default_shape b \<Longrightarrow> default_shape b'"
proof (induction ls arbitrary: b)
  case Nil
  then show ?case by simp
next
  case (Cons l ls)
  obtain sz x y h where l: "l = (sz, x, y, h)" by (cases l)
  obtain r b1 where p: "place_ship sz x y h b = (r, b1)" by (cases "place_ship sz x y h b")
  have s: "default_shape b1"
    using default_shape_place [OF Cons.prems(2), of sz x y h] p by simp
  show ?case
  proof (cases r)
    case (Inl e)
    show ?thesis
    proof (cases "is_ValueError e")
      case True
      with Cons.prems(1) l p Inl have "Game_place_ships ls b1 = Inr b'" by simp
      then show ?thesis using s by (rule Cons.IH)
    next
      case False
      with Cons.prems(1) l p Inl have "b' = b1" by (simp split: if_splits)
      with s show ?thesis by simp
    qed
  next
    case (Inr u)
    with Cons.prems(1) l p have "Game_place_ships ls b1 = Inr b'" by simp
    then show ?thesis using s by (rule Cons.IH)
  qed
qed

lemma NaiveGame_place_ships_shape:
  "NaiveGame_place_ships ls b = Inr b' \<Longrightarrow> default_shape b \<Longrightarrow> default_shape b'"
proof (induction ls arbitrary: b)
  case Nil
  then show ?case by simp
next
  case (Cons l ls)
  obtain sz x y h where l: "l = (sz, x, y, h)" by (cases l)
  obtain r b1 where p: "place_ship sz x y h b = (r, b1)" by (cases "place_ship sz x y h b")
  have s: "default_shape b1"
    using default_shape_place [OF Cons.prems(2), of sz x y h] p by simp
  from Cons.prems(1) l p have "NaiveGame_place_ships ls b1 = Inr b'"
    by (cases r) simp_all
  then show ?case using s by (rule Cons.IH)
qed

lemma board_of_set [simp]:
  "board_of a (set_buffer b buf st) = board_of a st"
  "board_of a (set_board b bd st) = (if a = b then bd else board_of a st)"
  by (cases a; cases b; simp)+

text \<open>What a step of a round does to the two boards.\<close>

lemma Game_setup_ships_boards:
  assumes "Game_setup_ships sd st = Inr st'"
  shows "board_of (other sd) st' = board_of (other sd) st
     \<and> (\<exists>ls. Game_place_ships ls (board_of sd st) = Inr (board_of sd st'))"
proof -
  obtain r p where c: "call_ship_locations (player sd st) = (r, p)"
    by (cases "call_ship_locations (player sd st)")
  let ?ls = "case r of Inl e \<Rightarrow> [] | Inr locations \<Rightarrow> locations"
  from assms c obtain b where b: "Game_place_ships ?ls (board_of sd st) = Inr b"
    and st': "st' = set_board sd b (set_player sd p st)"
    by (auto simp: Game_setup_ships_def split: option.splits sum.splits)
  from b st' show ?thesis by auto
qed

lemma NaiveGame_setup_ships_boards:
  assumes "NaiveGame_setup_ships sd st = Inr st'"
  shows "board_of (other sd) st' = board_of (other sd) st
     \<and> (\<exists>ls. NaiveGame_place_ships ls (board_of sd st) = Inr (board_of sd st'))"
  using assms
  by (auto simp: NaiveGame_setup_ships_def split: prod.splits sum.splits)

lemma Game_report_boards:
  "Game_report a x y result st = Inr st' \<Longrightarrow> board_of b st' = board_of b st"
  by (auto simp: Game_report_eq split: option.splits prod.splits)

lemma NaiveGame_report_boards:
  "NaiveGame_report a x y result st = Inr st' \<Longrightarrow> board_of b st' = board_of b st"
  by (auto simp: NaiveGame_report_def pop0_append Let_def split: prod.splits sum.splits)

lemma Game_turn_boards:
  assumes "Game_turn a st = Inr st'"
  shows "board_of a st' = board_of a st
     \<and> (board_of (other a) st' = board_of (other a) st
        \<or> (\<exists>x y. board_of (other a) st' = snd (Board_drop_bomb x y (board_of (other a) st))))"
proof -
  obtain r att where d: "call_drop_bomb (player a st) = (r, att)"
    by (cases "call_drop_bomb (player a st)")
  show ?thesis
  proof (cases r)
    case (Inl e)
    with assms d show ?thesis by (auto simp: Game_turn_def split: if_splits)
  next
    case (Inr xy)
    obtain x y where xy: "xy = (x, y)" by (cases xy)
    define st1 where "st1 = set_player a att st"
    obtain res tgt_b where bd: "Board_drop_bomb x y (board_of (other a) st) = (res, tgt_b)"
      by (cases "Board_drop_bomb x y (board_of (other a) st)")
    show ?thesis
    proof (cases res)
      case (Inl e)
      with bd have "tgt_b = board_of (other a) st"
        using Board_drop_bomb_failure_unchanged [of x y "board_of (other a) st" e] by simp
      with assms d Inr xy bd Inl show ?thesis
        by (auto simp: Game_turn_def split: if_splits)
    next
      case res: (Inr result)
      obtain r' tgt where bf: "call_bombed_feedback x y result (player (other a) st) = (r', tgt)"
        by (cases "call_bombed_feedback x y result (player (other a) st)")
      from assms d Inr xy bd res bf
      have rep: "Game_report a x y result
          (set_player (other a) tgt (set_board (other a) tgt_b (set_player a att st))) = Inr st'"
        by (simp add: Game_turn_def split: option.splits)
      have tb: "tgt_b = snd (Board_drop_bomb x y (board_of (other a) st))" using bd by simp
      from Game_report_boards [OF rep, of a] Game_report_boards [OF rep, of "other a"] tb
      show ?thesis by auto
    qed
  qed
qed

lemma NaiveGame_turn_boards:
  assumes "NaiveGame_turn a st = Inr st'"
  shows "board_of a st' = board_of a st
     \<and> (\<exists>x y. board_of (other a) st' = snd (Board_drop_bomb x y (board_of (other a) st)))"
proof -
  obtain r att where d: "call_drop_bomb (player a st) = (r, att)"
    by (cases "call_drop_bomb (player a st)")
  from assms d obtain x y where r: "r = Inr (x, y)"
    by (cases r) (auto simp: NaiveGame_turn_def)
  obtain res tgt_b where bd: "Board_drop_bomb x y (board_of (other a) st) = (res, tgt_b)"
    by (cases "Board_drop_bomb x y (board_of (other a) st)")
  from assms d r bd obtain result where res: "res = Inr result"
    by (cases res) (auto simp: NaiveGame_turn_def)
  obtain r' tgt where bf: "call_bombed_feedback x y result (player (other a) st) = (r', tgt)"
    by (cases "call_bombed_feedback x y result (player (other a) st)")
  from assms d r bd res bf
  have rep: "NaiveGame_report a x y result
      (set_player (other a) tgt (set_board (other a) tgt_b (set_player a att st))) = Inr st'"
    by (cases r') (simp_all add: NaiveGame_turn_def)
  have tb: "tgt_b = snd (Board_drop_bomb x y (board_of (other a) st))" using bd by simp
  from NaiveGame_report_boards [OF rep, of a] NaiveGame_report_boards [OF rep, of "other a"] tb
  show ?thesis by auto
qed

lemma Game_play_boards_shape:
  assumes "Game_play_boards g first st = Inr st'"
    and "default_shape (p1_board st)" "default_shape (p2_board st)"
  shows "default_shape (p1_board st') \<and> default_shape (p2_board st')"
proof -
  let ?I = "\<lambda>s. default_shape (p1_board s) \<and> default_shape (p2_board s)"
  have sides: "?I s \<longleftrightarrow> default_shape (board_of a s) \<and> default_shape (board_of (other a) s)" for a s
    by (cases a) auto
  have stp: "?I s'" if "Game_setup_ships sd s = Inr s'" "?I s" for sd s s'
  proof -
    from Game_setup_ships_boards [OF that(1)] obtain ls
      where o: "board_of (other sd) s' = board_of (other sd) s"
        and p: "Game_place_ships ls (board_of sd s) = Inr (board_of sd s')" by blast
    from that(2) have "default_shape (board_of sd s)" "default_shape (board_of (other sd) s)"
      using sides [of s sd] by simp_all
    with o Game_place_ships_shape [OF p] show ?thesis using sides [of s' sd] by simp
  qed
  have turn: "?I s'" if "?I s" "Game_turn a s = Inr s'" for a s s'
  proof -
    from that(1) have d: "default_shape (board_of a s)" "default_shape (board_of (other a) s)"
      using sides [of s a] by simp_all
    from Game_turn_boards [OF that(2)] d default_shape_bomb [OF d(2)]
    have "default_shape (board_of a s') \<and> default_shape (board_of (other a) s')" by auto
    then show ?thesis using sides [of s' a] by simp
  qed
  from assms(1) obtain st1 st2 where s1: "Game_setup_ships first st = Inr st1"
    and s2: "Game_setup_ships (other first) st1 = Inr st2"
    and l: "turn_loop Game_turn (max_turns g) first 0 st2 = Inr st'"
    by (auto simp: Game_play_boards_def split: sum.splits)
  have "?I st1" using assms(2,3) by (intro stp [OF s1] conjI)
  then have "?I st2" by (rule stp [OF s2])
  then show "?I st'" using turn by (rule turn_loop_Inr [OF l, where I = ?I])
qed

lemma NaiveGame_play_boards_shape:
  assumes "NaiveGame_play_boards g first st = Inr st'"
    and "default_shape (p1_board st)" "default_shape (p2_board st)"
  shows "default_shape (p1_board st') \<and> default_shape (p2_board st')"
proof -
  let ?I = "\<lambda>s. default_shape (p1_board s) \<and> default_shape (p2_board s)"
  have sides: "?I s \<longleftrightarrow> default_shape (board_of a s) \<and> default_shape (board_of (other a) s)" for a s
    by (cases a) auto
  have stp: "?I s'" if "NaiveGame_setup_ships sd s = Inr s'" "?I s" for sd s s'
  proof -
    from NaiveGame_setup_ships_boards [OF that(1)] obtain ls
      where o: "board_of (other sd) s' = board_of (other sd) s"
        and p: "NaiveGame_place_ships ls (board_of sd s) = Inr (board_of sd s')" by blast
    from that(2) have "default_shape (board_of sd s)" "default_shape (board_of (other sd) s)"
      using sides [of s sd] by simp_all
    with o NaiveGame_place_ships_shape [OF p] show ?thesis using sides [of s' sd] by simp
  qed
  have turn: "?I s'" if "?I s" "NaiveGame_turn a s = Inr s'" for a s s'
  proof -
    from that(1) have d: "default_shape (board_of a s)" "default_shape (board_of (other a) s)"
      using sides [of s a] by simp_all
    from NaiveGame_turn_boards [OF that(2)] d default_shape_bomb [OF d(2)]
    have "default_shape (board_of a s') \<and> default_shape (board_of (other a) s')" by auto
    then show ?thesis using sides [of s' a] by simp
  qed
  from assms(1) obtain st1 st2 where s1: "NaiveGame_setup_ships first st = Inr st1"
    and s2: "NaiveGame_setup_ships (other first) st1 = Inr st2"
    and l: "turn_loop NaiveGame_turn (max_turns g) first 0 st2 = Inr st'"
    by (auto simp: NaiveGame_play_boards_def split: sum.splits)
  have "?I st1" using assms(2,3) by (intro stp [OF s1] conjI)
  then have "?I st2" by (rule stp [OF s2])
  then show "?I st'" using turn by (rule turn_loop_Inr [OF l, where I = ?I])
qed

lemma new_round_boards:
  "p1_board (new_round g q1 q2) = Board_init 12 [2, 3, 3, 4, 5]"
  "p2_board (new_round g q1 q2) = Board_init 12 [2, 3, 3, 4, 5]"
  by (simp_all add: new_round_def Board_default_def)

lemma new_round_shape:
  "default_shape (p1_board (new_round g q1 q2))" "default_shape (p2_board (new_round g q1 q2))"
  using default_shape_default by (simp_all add: new_round_def)

text \<open>A round of the scripted game in which only player 1 asks for a ship.\<close>

lemma one_ship_boards:
  assumes "fst (place_ship sz x y h Board_default) = Inr ()"
    and "still_floating (snd (place_ship sz x y h Board_default))"
  shows "Game_play_boards g P2
       (new_round g (scripted_player [(sz, x, y, h)] bomb, ()) (scripted_player [] bomb', ()))
     = Inr ((new_round g (scripted_player [(sz, x, y, h)] bomb, ()) (scripted_player [] bomb', ()))
              \<lparr>p1_board := snd (place_ship sz x y h Board_default)\<rparr>)"
    and "NaiveGame_play_boards g P2
       (new_round g (scripted_player [(sz, x, y, h)] bomb, ()) (scripted_player [] bomb', ()))
     = Inr ((new_round g (scripted_player [(sz, x, y, h)] bomb, ()) (scripted_player [] bomb', ()))
              \<lparr>p1_board := snd (place_ship sz x y h Board_default)\<rparr>)"
proof -
  define c1 where "c1 = scripted_player [(sz, x, y, h)] bomb"
  define c2 where "c2 = scripted_player [] bomb'"
  define b1 where "b1 = snd (place_ship sz x y h Board_default)"
  define st0 where "st0 = new_round g (c1, ()) (c2, ())"
  define st where "st = st0\<lparr>p1_board := b1\<rparr>"
  have place: "place_ship sz x y h Board_default = (Inr (), b1)"
    using assms(1) by (simp add: b1_def prod_eq_iff)
  have fl2: "\<not> still_floating Board_default"
    by (simp add: still_floating_no_ships ships_B_default)
  have loop: "turn_loop body (max_turns g) P2 0 st = Inr st"
    for body :: "side \<Rightarrow> unit Round \<Rightarrow> exn + unit Round"
    by (rule turn_loop_break) (simp add: st_def st0_def new_round_def fl2)
  have s1: "Game_setup_ships P2 st0 = Inr st0"
    by (simp add: Game_setup_ships_def st0_def new_round_def c2_def call_simps reraised_def)
  have s2: "Game_setup_ships P1 st0 = Inr st"
    by (simp add: Game_setup_ships_def st0_def new_round_def c1_def call_simps reraised_def place st_def)
  have t1: "NaiveGame_setup_ships P2 st0 = Inr st0"
    by (simp add: NaiveGame_setup_ships_def st0_def new_round_def c2_def call_simps)
  have t2: "NaiveGame_setup_ships P1 st0 = Inr st"
    by (simp add: NaiveGame_setup_ships_def st0_def new_round_def c1_def call_simps place st_def)
  have "Game_play_boards g P2 st0 = Inr st"
    by (simp add: Game_play_boards_def s1 s2 loop)
  then show "Game_play_boards g P2
       (new_round g (scripted_player [(sz, x, y, h)] bomb, ()) (scripted_player [] bomb', ()))
     = Inr ((new_round g (scripted_player [(sz, x, y, h)] bomb, ()) (scripted_player [] bomb', ()))
              \<lparr>p1_board := snd (place_ship sz x y h Board_default)\<rparr>)"
    by (simp add: st_def st0_def c1_def c2_def b1_def)
  have "NaiveGame_play_boards g P2 st0 = Inr st"
    by (simp add: NaiveGame_play_boards_def t1 t2 loop)
  then show "NaiveGame_play_boards g P2
       (new_round g (scripted_player [(sz, x, y, h)] bomb, ()) (scripted_player [] bomb', ()))
     = Inr ((new_round g (scripted_player [(sz, x, y, h)] bomb, ()) (scripted_player [] bomb', ()))
              \<lparr>p1_board := snd (place_ship sz x y h Board_default)\<rparr>)"
    by (simp add: st_def st0_def c1_def c2_def b1_def)
qed

lemma one_ship_scoring:
  assumes "still_floating (snd (place_ship sz x y h Board_default))"
  shows "scoring ((new_round g q1 q2)\<lparr>p1_board := snd (place_ship sz x y h Board_default)\<rparr>) = (2, 0)"
proof -
  have fl2: "\<not> still_floating Board_default"
    by (simp add: still_floating_no_ships ships_B_default)
  show ?thesis
    by (simp add: scoring_table new_round_def assms fl2)
qed

lemma place_wide_remaining:
  "remaining_ships (snd (place_ship 5 7 0 True Board_default)) = [2, 3, 3, 4]
   \<and> size_B (snd (place_ship 5 7 0 True Board_default)) = 12"
  by (simp add: place_ship_def Board_default_def Board_init_def select_fields_def py_index_def
      py_slice_def py_slice_bound_def Let_def get_field_def Field_init_def set_field_def upt_rec
      mark_ship_def)

text \<open>
  C4. Both \<open>_play_round\<close> build the two boards of a round as \<open>Board()\<close>: size 12 and
  the remaining ships 2, 3, 3, 4, 5, whatever \<open>size\<close> and \<open>ships\<close> the game was given.
  Once the two constructors have returned the player objects \<open>q1\<close> and \<open>q2\<close>, the
  round of \<open>NaiveGame\<close> and the round of \<open>Game\<close> are the play on these two boards,
  scored from the boards it ends with. Whatever the players do, the boards at the end
  of the play still have size 12, 12 rows of 12 fields, and remaining ships that are
  part of the multiset 2, 3, 3, 4, 5. The \<open>size\<close> and \<open>ships\<close> of the game reach the
  player constructors only: a game given another size and other ships plays the same
  round as long as the constructors return the same players.
\<close>

theorem round_boards_default:
  "p1_board (new_round g q1 q2) = Board_init 12 [2, 3, 3, 4, 5]
   \<and> p2_board (new_round g q1 q2) = Board_init 12 [2, 3, 3, 4, 5]
   \<and> (new_player g (p1_class g) = Inr q1 \<longrightarrow> new_player g (p2_class g) = Inr q2
      \<longrightarrow> NaiveGame_play_round g first
          = (case NaiveGame_play_boards g first (new_round g q1 q2) of
               Inl e \<Rightarrow> Inl e
             | Inr st \<Rightarrow> Inr (scoring st)))
   \<and> (Game_new_player al g (p1_class g) = Inr (Some q1)
      \<longrightarrow> Game_new_player al g (p2_class g) = Inr (Some q2)
      \<longrightarrow> Game_play_round al g first
          = (case Game_play_boards g first (new_round g q1 q2) of
               Inl e \<Rightarrow> Inl e
             | Inr st \<Rightarrow> Inr (scoring st)))
   \<and> (NaiveGame_play_boards g first (new_round g q1 q2) = Inr st
      \<longrightarrow> default_shape (p1_board st) \<and> default_shape (p2_board st))
   \<and> (Game_play_boards g first (new_round g q1 q2) = Inr st'
      \<longrightarrow> default_shape (p1_board st') \<and> default_shape (p2_board st'))
   \<and> (Game_new_player al (g\<lparr>size_G := sz, ships_G := shps\<rparr>) (p1_class g) = Game_new_player al g (p1_class g)
      \<longrightarrow> Game_new_player al (g\<lparr>size_G := sz, ships_G := shps\<rparr>) (p2_class g) = Game_new_player al g (p2_class g)
      \<longrightarrow> Game_play_round al (g\<lparr>size_G := sz, ships_G := shps\<rparr>) first = Game_play_round al g first)
   \<and> (new_player (g\<lparr>size_G := sz, ships_G := shps\<rparr>) (p1_class g) = new_player g (p1_class g)
      \<longrightarrow> new_player (g\<lparr>size_G := sz, ships_G := shps\<rparr>) (p2_class g) = new_player g (p2_class g)
      \<longrightarrow> NaiveGame_play_round (g\<lparr>size_G := sz, ships_G := shps\<rparr>) first = NaiveGame_play_round g first)"
proof -
  let ?g = "g\<lparr>size_G := sz, ships_G := shps\<rparr>"
  have b1: "p1_board (new_round g q1 q2) = Board_init 12 [2, 3, 3, 4, 5]"
    by (simp add: new_round_def Board_default_def)
  have b2: "p2_board (new_round g q1 q2) = Board_init 12 [2, 3, 3, 4, 5]"
    by (simp add: new_round_def Board_default_def)
  have strict_round: "new_player g (p1_class g) = Inr q1 \<longrightarrow> new_player g (p2_class g) = Inr q2
      \<longrightarrow> NaiveGame_play_round g first
          = (case NaiveGame_play_boards g first (new_round g q1 q2) of
               Inl e \<Rightarrow> Inl e
             | Inr st \<Rightarrow> Inr (scoring st))"
    by (simp add: NaiveGame_play_round_def)
  have lenient_round: "Game_new_player al g (p1_class g) = Inr (Some q1)
      \<longrightarrow> Game_new_player al g (p2_class g) = Inr (Some q2)
      \<longrightarrow> Game_play_round al g first
          = (case Game_play_boards g first (new_round g q1 q2) of
               Inl e \<Rightarrow> Inl e
             | Inr st \<Rightarrow> Inr (scoring st))"
    by (simp add: Game_play_round_def)
  have strict_shape: "NaiveGame_play_boards g first (new_round g q1 q2) = Inr st
      \<longrightarrow> default_shape (p1_board st) \<and> default_shape (p2_board st)"
    using NaiveGame_play_boards_shape [of g first "new_round g q1 q2" st] new_round_shape [of g q1 q2]
    by simp
  have lenient_shape: "Game_play_boards g first (new_round g q1 q2) = Inr st'
      \<longrightarrow> default_shape (p1_board st') \<and> default_shape (p2_board st')"
    using Game_play_boards_shape [of g first "new_round g q1 q2" st'] new_round_shape [of g q1 q2]
    by simp
  have lenient: "Game_new_player al ?g (p1_class g) = Game_new_player al g (p1_class g)
      \<longrightarrow> Game_new_player al ?g (p2_class g) = Game_new_player al g (p2_class g)
      \<longrightarrow> Game_play_round al ?g first = Game_play_round al g first"
    by (simp add: Game_play_round_def new_round_size_ships play_boards_size_ships
        cong: sum.case_cong option.case_cong prod.case_cong)
  have strict: "new_player ?g (p1_class g) = new_player g (p1_class g)
      \<longrightarrow> new_player ?g (p2_class g) = new_player g (p2_class g)
      \<longrightarrow> NaiveGame_play_round ?g first = NaiveGame_play_round g first"
    by (simp add: NaiveGame_play_round_def new_round_size_ships play_boards_size_ships
        cong: sum.case_cong)
  show ?thesis
    by (intro conjI b1 b2 strict_round lenient_round strict_shape lenient_shape lenient strict)
qed

theorem round_boards_default_witness:
  "NaiveGame_play_round
     ((scripted_game (scripted_player [(5, 7, 0, True)] (Inr (0, 0))) (scripted_player [] (Inr (0, 0))) 144 0)
        \<lparr>size_G := 5, ships_G := [3]\<rparr>) P2
   = Inr (2, 0)
   \<and> Game_play_round no_alarm
     ((scripted_game (scripted_player [(5, 7, 0, True)] (Inr (0, 0))) (scripted_player [] (Inr (0, 0))) 144 0)
        \<lparr>size_G := 5, ships_G := [3]\<rparr>) P2
   = Inr (2, 0)
   \<and> NaiveGame_play_boards
       (scripted_game (scripted_player [(5, 7, 0, True)] (Inr (0, 0))) (scripted_player [] (Inr (0, 0))) 144 0) P2
       (new_round
          (scripted_game (scripted_player [(5, 7, 0, True)] (Inr (0, 0))) (scripted_player [] (Inr (0, 0))) 144 0)
          (scripted_player [(5, 7, 0, True)] (Inr (0, 0)), ()) (scripted_player [] (Inr (0, 0)), ()))
     = Game_play_boards
       (scripted_game (scripted_player [(5, 7, 0, True)] (Inr (0, 0))) (scripted_player [] (Inr (0, 0))) 144 0) P2
       (new_round
          (scripted_game (scripted_player [(5, 7, 0, True)] (Inr (0, 0))) (scripted_player [] (Inr (0, 0))) 144 0)
          (scripted_player [(5, 7, 0, True)] (Inr (0, 0)), ()) (scripted_player [] (Inr (0, 0)), ()))
   \<and> (case Game_play_boards
       (scripted_game (scripted_player [(5, 7, 0, True)] (Inr (0, 0))) (scripted_player [] (Inr (0, 0))) 144 0) P2
       (new_round
          (scripted_game (scripted_player [(5, 7, 0, True)] (Inr (0, 0))) (scripted_player [] (Inr (0, 0))) 144 0)
          (scripted_player [(5, 7, 0, True)] (Inr (0, 0)), ()) (scripted_player [] (Inr (0, 0)), ())) of
        Inl e \<Rightarrow> False
      | Inr st \<Rightarrow> default_shape (p1_board st) \<and> default_shape (p2_board st)
          \<and> size_B (p1_board st) = 12 \<and> remaining_ships (p1_board st) = [2, 3, 3, 4]
          \<and> p2_board st = Board_init 12 [2, 3, 3, 4, 5])"
proof -
  define c1 :: "unit Player" where "c1 = scripted_player [(5, 7, 0, True)] (Inr (0, 0))"
  define c2 :: "unit Player" where "c2 = scripted_player [] (Inr (0, 0))"
  define g where "g = scripted_game c1 c2 144 0"
  define st where "st = (new_round g (c1, ()) (c2, ()))\<lparr>p1_board := snd (place_ship 5 7 0 True Board_default)\<rparr>"
  note th = round_boards_default [where g = g and ?q1.0 = "(c1, ())" and ?q2.0 = "(c2, ())"
      and al = no_alarm and sz = 5 and shps = "[3]" and first = P2 and st = st and st' = st]
  have pw: "fst (place_ship 5 7 0 True Board_default) = Inr ()"
      "still_floating (snd (place_ship 5 7 0 True Board_default))"
    using place_wide by simp_all
  have nb: "NaiveGame_play_boards g P2 (new_round g (c1, ()) (c2, ())) = Inr st"
    unfolding st_def c1_def c2_def by (rule one_ship_boards(2) [OF pw])
  have gb: "Game_play_boards g P2 (new_round g (c1, ()) (c2, ())) = Inr st"
    unfolding st_def c1_def c2_def by (rule one_ship_boards(1) [OF pw])
  have sc: "scoring st = (2, 0)"
    unfolding st_def by (rule one_ship_scoring [OF pw(2)])
  have m1: "new_player g (p1_class g) = Inr (c1, ())" "new_player g (p2_class g) = Inr (c2, ())"
    by (simp_all add: new_player_def g_def c1_def c2_def scripted_game_simps scripted_player_simps)
  have n1: "Game_new_player no_alarm g (p1_class g) = Inr (Some (c1, ()))"
      "Game_new_player no_alarm g (p2_class g) = Inr (Some (c2, ()))"
    by (simp_all add: Game_new_player_def Game_player_class_def new_player_def g_def c1_def c2_def
        scripted_game_simps scripted_player_simps)
  have m2: "new_player (g\<lparr>size_G := 5, ships_G := [3]\<rparr>) (p1_class g) = new_player g (p1_class g)"
      "new_player (g\<lparr>size_G := 5, ships_G := [3]\<rparr>) (p2_class g) = new_player g (p2_class g)"
    by (simp_all add: new_player_def g_def c1_def c2_def scripted_game_simps scripted_player_simps)
  have n2: "Game_new_player no_alarm (g\<lparr>size_G := 5, ships_G := [3]\<rparr>) (p1_class g) = Game_new_player no_alarm g (p1_class g)"
      "Game_new_player no_alarm (g\<lparr>size_G := 5, ships_G := [3]\<rparr>) (p2_class g) = Game_new_player no_alarm g (p2_class g)"
    by (simp_all add: Game_new_player_def Game_player_class_def new_player_def g_def c1_def c2_def
        scripted_game_simps scripted_player_simps)
  have strict: "NaiveGame_play_round (g\<lparr>size_G := 5, ships_G := [3]\<rparr>) P2 = Inr (2, 0)"
    using th m1 m2 nb sc by simp
  have lenient: "Game_play_round no_alarm (g\<lparr>size_G := 5, ships_G := [3]\<rparr>) P2 = Inr (2, 0)"
    using th n1 n2 gb sc by simp
  have shape: "default_shape (p1_board st) \<and> default_shape (p2_board st)"
    using th gb by simp
  have rest: "size_B (p1_board st) = 12 \<and> remaining_ships (p1_board st) = [2, 3, 3, 4]"
    using place_wide_remaining by (simp add: st_def)
  have p2b: "p2_board st = Board_init 12 [2, 3, 3, 4, 5]"
    using th by (simp add: st_def)
  show ?thesis
    using strict lenient nb gb shape rest p2b
    by (simp add: g_def c1_def c2_def)
qed

section \<open>Exceptions of the players in a lenient round\<close>

subsection \<open>What a caught exception leaves behind\<close>

lemma constructor_forfeit_p1:
  "\<not> interrupt err \<longrightarrow> new_player g (Game_player_class al g (p1_class g)) = Inl err
   \<longrightarrow> Game_new_player al g (p2_class g) = Inr (Some q2)
   \<longrightarrow> Game_play_round al g first = Inr (0, 2)"
  by (simp add: Game_play_round_def Game_new_player_def)

lemma constructor_forfeit_p2:
  "\<not> interrupt err \<longrightarrow> new_player g (Game_player_class al g (p2_class g)) = Inl err
   \<longrightarrow> Game_new_player al g (p1_class g) = Inr (Some q1)
   \<longrightarrow> Game_play_round al g first = Inr (2, 0)"
  by (simp add: Game_play_round_def Game_new_player_def)

lemma ship_locations_caught:
  "\<not> interrupt err \<longrightarrow> call_ship_locations (player sd st) = (Inl err, p)
   \<longrightarrow> Game_setup_ships sd st = Inr (set_board sd (board_of sd st) (set_player sd p st))"
  by (simp add: Game_setup_ships_def reraised_def)

lemma drop_bomb_caught:
  "\<not> interrupt err \<longrightarrow> call_drop_bomb (player a st) = (Inl err, att)
   \<longrightarrow> Game_turn a st = Inr (set_player a att st)"
  by (simp add: Game_turn_def)

lemma skipped_turn_unchanged:
  "board_of b (set_player a att st) = board_of b st
   \<and> buffer_of b (set_player a att st) = buffer_of b st
   \<and> player (other a) (set_player a att st) = player (other a) st"
  by (cases a; cases b) simp_all

lemma bombed_feedback_caught:
  "\<not> interrupt err \<longrightarrow> call_drop_bomb (player a st) = (Inr (x, y), att)
   \<longrightarrow> Board_drop_bomb x y (board_of (other a) st) = (Inr result, tgt_b)
   \<longrightarrow> call_bombed_feedback x y result (player (other a) st) = (Inl err, tgt)
   \<longrightarrow> Game_turn a st
       = Game_report a x y result
           (set_player (other a) tgt (set_board (other a) tgt_b (set_player a att st)))"
  by (cases a) (simp_all add: Game_turn_def reraised_def)

lemma bomb_feedback_caught:
  "\<not> interrupt err \<longrightarrow> hd (buffer_of a st @ [Some (x, y, result)]) = Some (fx, fy, fr)
   \<longrightarrow> bomb_feedback (fst (player a st)) fx fy fr (snd (player a st)) = (Inl err, s)
   \<longrightarrow> Game_report a x y result st
       = Inr (set_player a (fst (player a st), s)
                (set_buffer a (tl (buffer_of a st @ [Some (x, y, result)])) st))"
  by (cases a) (simp_all add: Game_report_eq call_bomb_feedback_star_def reraised_def)

lemma Game_round_scored:
  "Game_new_player al g (p1_class g) = Inr (Some q1)
   \<longrightarrow> Game_new_player al g (p2_class g) = Inr (Some q2)
   \<longrightarrow> Game_play_boards g first (new_round g q1 q2) = Inr fin
   \<longrightarrow> Game_play_round al g first = Inr (scoring fin)"
  by (simp add: Game_play_round_def)

subsection \<open>A player whose \<open>drop_bomb\<close> always raises\<close>

lemma turn_loop_fixed:
  assumes "\<And>a. body a st = Inr st"
  shows "turn_loop body mt a turn st = Inr st"
  using assms
proof (induction body mt a turn st rule: turn_loop.induct)
  case (1 body mt a turn st)
  show ?case
  proof (cases "\<not> still_floating (board_of a st) \<or> turn + 1 > mt * 2")
    case True
    then show ?thesis by (rule turn_loop_break)
  next
    case False
    then have f: "still_floating (board_of a st)" "turn + 1 \<le> mt * 2" by simp_all
    have "turn_loop body mt (other a) (turn + 1) st = Inr st"
      using False "1.prems" by (intro "1.IH") simp_all
    then show ?thesis by (simp add: turn_loop_step [OF f] "1.prems")
  qed
qed

lemma play_from_constant:
  "play_from (\<lambda>i. Inr (a, b)) i n (s1, s2) = Inr (s1 + int n * a, s2 + int n * b)"
  by (induction n arbitrary: i s1 s2) (simp_all add: algebra_simps)

lemma board_after_miss:
  "Board_drop_bomb 5 5 (snd (Board_drop_bomb 5 5 (snd (place_ship 2 0 0 True Board_default))))
   = (Inr PREVIOUS_MISS, snd (Board_drop_bomb 5 5 (snd (place_ship 2 0 0 True Board_default))))"
  by (simp add: place_ship_def Board_default_def Board_init_def select_fields_def py_index_def
      py_slice_def py_slice_bound_def Let_def get_field_def Field_init_def set_field_def upt_rec
      Board_drop_bomb_def Field_drop_bomb_simps mark_ship_def)


text \<open>
  A round between a player whose \<open>drop_bomb\<close> always raises and one that always
  shoots at the empty field (5, 5); each places one ship of size 2 and no delay is set.
\<close>

lemma thrower_round:
  fixes mt :: int
  defines "thrower \<equiv> scripted_player [(2, 0, 0, True)] (Inl (Exception ''boom''))"
    and "shooter \<equiv> scripted_player [(2, 0, 0, True)] (Inr (5, 5))"
  defines "g \<equiv> scripted_game thrower shooter mt 0"
  defines "st0 \<equiv> new_round g (thrower, ()) (shooter, ())"
  defines "b1 \<equiv> snd (place_ship 2 0 0 True Board_default)"
  defines "b2 \<equiv> snd (Board_drop_bomb 5 5 b1)"
  assumes mt: "1 \<le> mt"
  shows "Game_new_player no_alarm g (p1_class g) = Inr (Some (thrower, ()))"
    and "Game_new_player no_alarm g (p2_class g) = Inr (Some (shooter, ()))"
    and "call_drop_bomb (player P1 (st0\<lparr>p1_board := b1, p2_board := b1\<rparr>))
         = (Inl (Exception ''boom''), (thrower, ()))"
    and "Game_turn P2 (st0\<lparr>p1_board := b1, p2_board := b1\<rparr>) = Inr (st0\<lparr>p1_board := b2, p2_board := b1\<rparr>)"
    and "Game_play_boards g P1 st0 = Inr (st0\<lparr>p1_board := b2, p2_board := b1\<rparr>)"
    and "scoring (st0\<lparr>p1_board := b2, p2_board := b1\<rparr>) = (1, 1)"
proof -
  let ?st2 = "st0\<lparr>p1_board := b1, p2_board := b1\<rparr>"
  let ?st3 = "st0\<lparr>p1_board := b2, p2_board := b1\<rparr>"
  have place: "place_ship 2 0 0 True Board_default = (Inr (), b1)"
    using place_one by (simp add: b1_def prod_eq_iff)
  have bomb: "Board_drop_bomb 5 5 b1 = (Inr MISS, b2)"
    using board_after_ship by (simp add: b1_def b2_def prod_eq_iff)
  have bomb2: "Board_drop_bomb 5 5 b2 = (Inr PREVIOUS_MISS, b2)"
    using board_after_miss by (simp add: b1_def b2_def)
  have fl1: "still_floating b1"
    using place_one by (simp add: b1_def)
  have fl2: "still_floating b2"
    using board_after_ship by (simp add: b1_def b2_def)
  show n1: "Game_new_player no_alarm g (p1_class g) = Inr (Some (thrower, ()))"
    by (simp add: Game_new_player_def Game_player_class_def new_player_def g_def thrower_def
        scripted_game_simps scripted_player_simps)
  show n2: "Game_new_player no_alarm g (p2_class g) = Inr (Some (shooter, ()))"
    by (simp add: Game_new_player_def Game_player_class_def new_player_def g_def shooter_def
        scripted_game_simps scripted_player_simps)
  show d: "call_drop_bomb (player P1 ?st2) = (Inl (Exception ''boom''), (thrower, ()))"
    by (simp add: st0_def new_round_def thrower_def call_simps)
  have s1: "Game_setup_ships P1 st0 = Inr (st0\<lparr>p1_board := b1\<rparr>)"
    by (simp add: Game_setup_ships_def st0_def new_round_def thrower_def call_simps
        reraised_def place)
  have s2: "Game_setup_ships P2 (st0\<lparr>p1_board := b1\<rparr>) = Inr ?st2"
    by (simp add: Game_setup_ships_def st0_def new_round_def shooter_def
        call_simps reraised_def place)
  have t1: "Game_turn P1 ?st2 = Inr ?st2"
    by (simp add: Game_turn_def st0_def new_round_def thrower_def call_simps interrupt_def)
  show t2: "Game_turn P2 ?st2 = Inr ?st3"
    by (simp add: Game_turn_def Game_report_eq st0_def new_round_def
        thrower_def shooter_def call_simps scripted_player_simps reraised_def bomb g_def
        scripted_game_simps)
  have t3: "Game_turn P1 ?st3 = Inr ?st3"
    by (simp add: Game_turn_def st0_def new_round_def thrower_def call_simps interrupt_def)
  have t4: "Game_turn P2 ?st3 = Inr ?st3"
    by (simp add: Game_turn_def Game_report_eq st0_def new_round_def
        thrower_def shooter_def call_simps scripted_player_simps reraised_def bomb2 g_def
        scripted_game_simps)
  have fixed: "Game_turn a ?st3 = Inr ?st3" for a
    using t3 t4 by (cases a) simp_all
  have l3: "turn_loop Game_turn mt P1 2 ?st3 = Inr ?st3"
    using fixed by (rule turn_loop_fixed)
  have f: "still_floating (board_of P1 ?st2)" "still_floating (board_of P2 ?st2)"
    by (simp_all add: fl1)
  have m: "0 + 1 \<le> mt * 2" "1 + 1 \<le> mt * 2"
    using mt by simp_all
  have l2: "turn_loop Game_turn mt P2 1 ?st2 = Inr ?st3"
    using l3 by (simp add: turn_loop_step [OF f(2) m(2)] t2)
  have l1: "turn_loop Game_turn mt P1 0 ?st2 = Inr ?st3"
    using l2 by (simp add: turn_loop_step [OF f(1) m(1)] t1)
  show "Game_play_boards g P1 st0 = Inr ?st3"
    using l1 by (simp add: Game_play_boards_def s1 s2 g_def scripted_game_simps)
  show "scoring ?st3 = (1, 1)"
    by (simp add: scoring_table st0_def new_round_def fl1 fl2)
qed

text \<open>
  C6, amended. The player methods return values of the types they are annotated with,
  or raise. In \<open>Game\<close> the only exception that leaves a round or the tournament is
  a \<open>KeyboardInterrupt\<close> or \<open>SystemExit\<close> raised by a constructor or a method of
  one of the two player classes; when no such call raises one of these two, as for a
  player whose \<open>drop_bomb\<close> always raises another exception, a tournament of any
  number of rounds returns its score. Such an interrupt raised by a constructor,
  by \<open>ship_locations\<close>, \<open>drop_bomb\<close>, \<open>bombed_feedback\<close> or
  \<open>bomb_feedback\<close> leaves the step that made the call, and an exception that leaves a
  step leaves the loop, the round and the tournament.

  Any other exception is caught where it is raised. When \<open>drop_bomb\<close> raises one, the
  turn is skipped: it returns with the attacker's object as the call left it, and both
  boards, both buffers and the opponent are as before. A round that got both players
  and played to the end of its loop is scored from its two final boards, so a player
  whose \<open>drop_bomb\<close> always raises is scored like any other and forfeits nothing by
  it. Only a constructor that raises loses the round, 0 to 2. When \<open>ship_locations\<close>
  raises, no ship is placed; when \<open>bombed_feedback\<close> raises, the turn goes on to the
  feedback of the attacker; when \<open>bomb_feedback\<close> raises, the turn ends as usual.
\<close>

theorem lenient_isolation:
  "(Game_play_round al g first = Inl e \<longrightarrow>
      interrupt e \<and> (raises (Game_player_class al g (p1_class g)) e
                    \<or> raises (Game_player_class al g (p2_class g)) e))
   \<and> (Game_play al g shuffle games = Inl e \<longrightarrow>
      interrupt e \<and> (raises (Game_player_class al g (p1_class g)) e
                    \<or> raises (Game_player_class al g (p2_class g)) e))
   \<and> ((\<forall>e. interrupt e \<longrightarrow> \<not> raises (Game_player_class al g (p1_class g)) e
                           \<and> \<not> raises (Game_player_class al g (p2_class g)) e)
      \<longrightarrow> (\<exists>score. Game_play al g shuffle games = Inr score))
   \<and> (interrupt e \<longrightarrow> new_player g (Game_player_class al g (p1_class g)) = Inl e
      \<longrightarrow> Game_play_round al g first = Inl e)
   \<and> (interrupt e \<longrightarrow> new_player g (Game_player_class al g (p2_class g)) = Inl e
      \<longrightarrow> Game_new_player al g (p1_class g) = Inr pl1
      \<longrightarrow> Game_play_round al g first = Inl e)
   \<and> (interrupt e \<longrightarrow> fst (call_ship_locations (player sd st)) = Inl e
      \<longrightarrow> Game_setup_ships sd st = Inl e)
   \<and> (interrupt e \<longrightarrow> fst (call_drop_bomb (player a st)) = Inl e \<longrightarrow> Game_turn a st = Inl e)
   \<and> (interrupt e \<longrightarrow> call_drop_bomb (player a st) = (Inr (x, y), att)
      \<longrightarrow> Board_drop_bomb x y (board_of (other a) st) = (Inr result, tgt_b)
      \<longrightarrow> fst (call_bombed_feedback x y result (player (other a) st)) = Inl e
      \<longrightarrow> Game_turn a st = Inl e)
   \<and> (interrupt e \<longrightarrow> hd (buffer_of a st @ [Some (x, y, result)]) = Some (fx, fy, fr)
      \<longrightarrow> fst (bomb_feedback (fst (player a st)) fx fy fr (snd (player a st))) = Inl e
      \<longrightarrow> Game_report a x y result st = Inl e)
   \<and> (call_drop_bomb (player a st) = (Inr (x, y), att)
      \<longrightarrow> Board_drop_bomb x y (board_of (other a) st) = (Inr result, tgt_b)
      \<longrightarrow> call_bombed_feedback x y result (player (other a) st) = (r, tgt)
      \<longrightarrow> reraised r = None
      \<longrightarrow> Game_report a x y result
            (set_player (other a) tgt (set_board (other a) tgt_b (set_player a att st))) = Inl e
      \<longrightarrow> Game_turn a st = Inl e)
   \<and> (still_floating (board_of a st) \<longrightarrow> turn + 1 \<le> mt * 2
      \<longrightarrow> (Game_turn a st = Inl e
           \<or> (\<exists>st'. Game_turn a st = Inr st'
                \<and> turn_loop Game_turn mt (other a) (turn + 1) st' = Inl e))
      \<longrightarrow> turn_loop Game_turn mt a turn st = Inl e)
   \<and> ((Game_setup_ships first st = Inl e
        \<or> (\<exists>st1. Game_setup_ships first st = Inr st1
             \<and> (Game_setup_ships (other first) st1 = Inl e
                \<or> (\<exists>st2. Game_setup_ships (other first) st1 = Inr st2
                     \<and> turn_loop Game_turn (max_turns g) first 0 st2 = Inl e))))
      \<longrightarrow> Game_play_boards g first st = Inl e)
   \<and> (Game_new_player al g (p1_class g) = Inr (Some q1)
      \<longrightarrow> Game_new_player al g (p2_class g) = Inr (Some q2)
      \<longrightarrow> Game_play_boards g first (new_round g q1 q2) = Inl e
      \<longrightarrow> Game_play_round al g first = Inl e)
   \<and> (Game_play_round al g (shuffle j) = Inl e \<longrightarrow> int j < games
      \<longrightarrow> (\<forall>k < j. \<exists>score. Game_play_round al g (shuffle k) = Inr score)
      \<longrightarrow> Game_play al g shuffle games = Inl e)
   \<and> (\<not> interrupt err \<longrightarrow> call_drop_bomb (player a st) = (Inl err, att)
      \<longrightarrow> Game_turn a st = Inr (set_player a att st))
   \<and> (board_of b (set_player a att st) = board_of b st
      \<and> buffer_of b (set_player a att st) = buffer_of b st
      \<and> player (other a) (set_player a att st) = player (other a) st)
   \<and> (Game_new_player al g (p1_class g) = Inr (Some q1)
      \<longrightarrow> Game_new_player al g (p2_class g) = Inr (Some q2)
      \<longrightarrow> Game_play_boards g first (new_round g q1 q2) = Inr fin
      \<longrightarrow> Game_play_round al g first = Inr (scoring fin))
   \<and> (\<not> interrupt err \<longrightarrow> new_player g (Game_player_class al g (p1_class g)) = Inl err
      \<longrightarrow> Game_new_player al g (p2_class g) = Inr (Some q2)
      \<longrightarrow> Game_play_round al g first = Inr (0, 2))
   \<and> (\<not> interrupt err \<longrightarrow> new_player g (Game_player_class al g (p2_class g)) = Inl err
      \<longrightarrow> Game_new_player al g (p1_class g) = Inr (Some q1)
      \<longrightarrow> Game_play_round al g first = Inr (2, 0))
   \<and> (\<not> interrupt err \<longrightarrow> call_ship_locations (player sd st) = (Inl err, p)
      \<longrightarrow> Game_setup_ships sd st = Inr (set_board sd (board_of sd st) (set_player sd p st)))
   \<and> (\<not> interrupt err \<longrightarrow> call_drop_bomb (player a st) = (Inr (x, y), att)
      \<longrightarrow> Board_drop_bomb x y (board_of (other a) st) = (Inr result, tgt_b)
      \<longrightarrow> call_bombed_feedback x y result (player (other a) st) = (Inl err, tgt)
      \<longrightarrow> Game_turn a st
          = Game_report a x y result
              (set_player (other a) tgt (set_board (other a) tgt_b (set_player a att st))))
   \<and> (\<not> interrupt err \<longrightarrow> hd (buffer_of a st @ [Some (x, y, result)]) = Some (fx, fy, fr)
      \<longrightarrow> bomb_feedback (fst (player a st)) fx fy fr (snd (player a st)) = (Inl err, s)
      \<longrightarrow> Game_report a x y result st
          = Inr (set_player a (fst (player a st), s)
                   (set_buffer a (tl (buffer_of a st @ [Some (x, y, result)])) st)))"
proof -
  have round: "Game_play_round al g first = Inl e \<longrightarrow>
      interrupt e \<and> (raises (Game_player_class al g (p1_class g)) e
                    \<or> raises (Game_player_class al g (p2_class g)) e)"
    using Game_play_round_Inl by blast
  have play: "Game_play al g shuffle games = Inl e \<longrightarrow>
      interrupt e \<and> (raises (Game_player_class al g (p1_class g)) e
                    \<or> raises (Game_player_class al g (p2_class g)) e)"
    using Game_play_Inl by blast
  have returns: "(\<forall>e. interrupt e \<longrightarrow> \<not> raises (Game_player_class al g (p1_class g)) e
                           \<and> \<not> raises (Game_player_class al g (p2_class g)) e)
      \<longrightarrow> (\<exists>score. Game_play al g shuffle games = Inr score)"
    using Game_play_returns by blast
  show ?thesis
    by (intro conjI round play returns new_player_interrupt_p1 new_player_interrupt_p2
        ship_locations_interrupt drop_bomb_interrupt bombed_feedback_interrupt
        bomb_feedback_interrupt Game_report_interrupt turn_loop_interrupt
        Game_play_boards_interrupt Game_play_round_interrupt Game_play_interrupt
        drop_bomb_caught skipped_turn_unchanged [THEN conjunct1]
        skipped_turn_unchanged [THEN conjunct2, THEN conjunct1]
        skipped_turn_unchanged [THEN conjunct2, THEN conjunct2]
        Game_round_scored constructor_forfeit_p1 constructor_forfeit_p2
        ship_locations_caught bombed_feedback_caught bomb_feedback_caught)
qed

theorem lenient_isolation_witness:
  "Game_turn P1
     ((new_round
         (scripted_game (scripted_player [(2, 0, 0, True)] (Inl (Exception ''boom'')))
            (scripted_player [(2, 0, 0, True)] (Inr (5, 5))) 144 0)
         (scripted_player [(2, 0, 0, True)] (Inl (Exception ''boom'')), ())
         (scripted_player [(2, 0, 0, True)] (Inr (5, 5)), ()))
        \<lparr>p1_board := snd (place_ship 2 0 0 True Board_default),
         p2_board := snd (place_ship 2 0 0 True Board_default)\<rparr>)
   = Inr ((new_round
         (scripted_game (scripted_player [(2, 0, 0, True)] (Inl (Exception ''boom'')))
            (scripted_player [(2, 0, 0, True)] (Inr (5, 5))) 144 0)
         (scripted_player [(2, 0, 0, True)] (Inl (Exception ''boom'')), ())
         (scripted_player [(2, 0, 0, True)] (Inr (5, 5)), ()))
        \<lparr>p1_board := snd (place_ship 2 0 0 True Board_default),
         p2_board := snd (place_ship 2 0 0 True Board_default)\<rparr>)
   \<and> Game_play_round no_alarm
       (scripted_game (scripted_player [(2, 0, 0, True)] (Inl (Exception ''boom'')))
          (scripted_player [(2, 0, 0, True)] (Inr (5, 5))) 144 0) P1
     = Inr (1, 1)
   \<and> Game_play no_alarm
       (scripted_game (scripted_player [(2, 0, 0, True)] (Inl (Exception ''boom'')))
          (scripted_player [(2, 0, 0, True)] (Inr (5, 5))) 144 0)
       (\<lambda>i. P1) 1000
     = Inr (1000, 1000)
   \<and> Game_turn P1
       (new_round (scripted_game (scripted_player [] (Inl KeyboardInterrupt)) (scripted_player [] (Inr (5, 5))) 144 0)
          (scripted_player [] (Inl KeyboardInterrupt), ()) (scripted_player [] (Inr (5, 5)), ()))
     = Inl KeyboardInterrupt"
proof -
  define thrower where "thrower = scripted_player [(2, 0, 0, True)] (Inl (Exception ''boom''))"
  define shooter where "shooter = scripted_player [(2, 0, 0, True)] (Inr (5, 5))"
  define g where "g = scripted_game thrower shooter 144 0"
  define st0 where "st0 = new_round g (thrower, ()) (shooter, ())"
  define b1 where "b1 = snd (place_ship 2 0 0 True Board_default)"
  define b2 where "b2 = snd (Board_drop_bomb 5 5 b1)"
  define st2 where "st2 = st0\<lparr>p1_board := b1, p2_board := b1\<rparr>"
  define st3 where "st3 = st0\<lparr>p1_board := b2, p2_board := b1\<rparr>"
  define ki where "ki = new_round (scripted_game (scripted_player [] (Inl KeyboardInterrupt)) (scripted_player [] (Inr (5, 5))) 144 0)
          (scripted_player [] (Inl KeyboardInterrupt), ()) (scripted_player [] (Inr (5, 5)), ())"
  note tr = thrower_round [of 144, folded thrower_def shooter_def, folded g_def, folded st0_def,
      folded b1_def, folded b2_def, folded st2_def st3_def]
  have n1: "Game_new_player no_alarm g (p1_class g) = Inr (Some (thrower, ()))"
    by (rule tr(1)) simp
  have n2: "Game_new_player no_alarm g (p2_class g) = Inr (Some (shooter, ()))"
    by (rule tr(2)) simp
  have d: "call_drop_bomb (player P1 st2) = (Inl (Exception ''boom''), (thrower, ()))"
    by (rule tr(3)) simp
  have b: "Game_play_boards g P1 st0 = Inr st3"
    by (rule tr(5)) simp
  have sc: "scoring st3 = (1, 1)"
    by (rule tr(6)) simp
  have same: "set_player P1 (thrower, ()) st2 = st2"
    by (simp add: st2_def st0_def new_round_def)
  have h: "\<forall>e. interrupt e \<longrightarrow> \<not> raises (Game_player_class no_alarm g (p1_class g)) e
                           \<and> \<not> raises (Game_player_class no_alarm g (p2_class g)) e"
    by (simp add: g_def thrower_def shooter_def Game_player_class_def scripted_game_simps
        not_raises_scripted interrupt_def)
  have ni: "\<not> interrupt (Exception ''boom'')" by (simp add: interrupt_def)
  note th = lenient_isolation [where al = no_alarm and g = g and shuffle = "\<lambda>i. P1" and games = 1000
      and first = P1 and a = P1 and st = st2 and err = "Exception ''boom''" and att = "(thrower, ())"
      and ?q1.0 = "(thrower, ())" and ?q2.0 = "(shooter, ())" and fin = st3]
  note returns = th [THEN conjunct2, THEN conjunct2, THEN conjunct1]
  note skipped = th [THEN conjunct2, THEN conjunct2, THEN conjunct2, THEN conjunct2, THEN conjunct2, THEN conjunct2, THEN conjunct2, THEN conjunct2, THEN conjunct2, THEN conjunct2, THEN conjunct2, THEN conjunct2, THEN conjunct2, THEN conjunct2, THEN conjunct1]
  note scored = th [THEN conjunct2, THEN conjunct2, THEN conjunct2, THEN conjunct2, THEN conjunct2, THEN conjunct2, THEN conjunct2, THEN conjunct2, THEN conjunct2, THEN conjunct2, THEN conjunct2, THEN conjunct2, THEN conjunct2, THEN conjunct2, THEN conjunct2, THEN conjunct2, THEN conjunct1]
  have "Game_turn P1 st2 = Inr (set_player P1 (thrower, ()) st2)"
    using skipped ni d by (rule mp [THEN mp])
  then have skip: "Game_turn P1 st2 = Inr st2"
    by (simp only: same)
  have "Game_play_round no_alarm g P1 = Inr (scoring st3)"
    using scored n1 n2 b [unfolded st0_def] by (rule mp [THEN mp, THEN mp])
  then have round: "Game_play_round no_alarm g P1 = Inr (1, 1)"
    by (simp only: sc)
  have "\<exists>score. Game_play no_alarm g (\<lambda>i. P1) 1000 = Inr score"
    using returns h by (rule mp)
  moreover have "Game_play no_alarm g (\<lambda>i. P1) 1000 = play_from (\<lambda>i. Inr (1, 1)) 0 1000 (0, 0)"
    by (simp add: Game_play_def round)
  ultimately have play: "Game_play no_alarm g (\<lambda>i. P1) 1000 = Inr (1000, 1000)"
    by (simp add: play_from_constant)
  have k: "interrupt KeyboardInterrupt" by (simp add: interrupt_def)
  have dk: "fst (call_drop_bomb (player P1 ki)) = Inl KeyboardInterrupt"
    by (simp add: ki_def new_round_def call_simps)
  note thk = lenient_isolation [where e = KeyboardInterrupt and a = P1 and st = ki]
  note raised = thk [THEN conjunct2, THEN conjunct2, THEN conjunct2, THEN conjunct2, THEN conjunct2, THEN conjunct2, THEN conjunct1]
  have int: "Game_turn P1 ki = Inl KeyboardInterrupt"
    using raised k dk by (rule mp [THEN mp])
  show ?thesis
    using skip round play int
    by (simp add: st2_def st0_def g_def thrower_def shooter_def b1_def ki_def)
qed

text \<open>
  C6 as stated fails: a player whose \<open>drop_bomb\<close> always raises does not forfeit
  every round. With one turn each, against a player that misses, both boards still float
  and the round is the draw (1, 1).
\<close>

theorem thrower_does_not_forfeit:
  "Game_play_round no_alarm
     (scripted_game (scripted_player [(2, 0, 0, True)] (Inl (Exception ''boom'')))
        (scripted_player [(2, 0, 0, True)] (Inr (5, 5))) 1 0) P1
   = Inr (1, 1)"
proof -
  define thrower where "thrower = scripted_player [(2, 0, 0, True)] (Inl (Exception ''boom''))"
  define shooter where "shooter = scripted_player [(2, 0, 0, True)] (Inr (5, 5))"
  define g where "g = scripted_game thrower shooter 1 0"
  define b1 where "b1 = snd (place_ship 2 0 0 True Board_default)"
  define b2 where "b2 = snd (Board_drop_bomb 5 5 b1)"
  define st0 where "st0 = new_round g (thrower, ()) (shooter, ())"
  define st1 where "st1 = st0\<lparr>p1_board := b1\<rparr>"
  define st2 where "st2 = st0\<lparr>p1_board := b1, p2_board := b1\<rparr>"
  define st3 where "st3 = st0\<lparr>p1_board := b2, p2_board := b1\<rparr>"
  have place: "place_ship 2 0 0 True Board_default = (Inr (), b1)"
    using place_one by (simp add: b1_def prod_eq_iff)
  have bomb: "Board_drop_bomb 5 5 b1 = (Inr MISS, b2)"
    using board_after_ship by (simp add: b1_def b2_def prod_eq_iff)
  have fl1: "still_floating b1"
    using place_one by (simp add: b1_def)
  have fl2: "still_floating b2"
    using board_after_ship by (simp add: b1_def b2_def)
  have n1: "Game_new_player no_alarm g (p1_class g) = Inr (Some (thrower, ()))"
    by (simp add: Game_new_player_def Game_player_class_def new_player_def g_def thrower_def
        scripted_game_simps scripted_player_simps)
  have n2: "Game_new_player no_alarm g (p2_class g) = Inr (Some (shooter, ()))"
    by (simp add: Game_new_player_def Game_player_class_def new_player_def g_def shooter_def
        scripted_game_simps scripted_player_simps)
  have s1: "Game_setup_ships P1 st0 = Inr st1"
    by (simp add: Game_setup_ships_def st0_def st1_def new_round_def thrower_def call_simps
        reraised_def place)
  have s2: "Game_setup_ships P2 st1 = Inr st2"
    by (simp add: Game_setup_ships_def st0_def st1_def st2_def new_round_def shooter_def
        call_simps reraised_def place)
  have t1: "Game_turn P1 st2 = Inr st2"
    by (simp add: Game_turn_def st0_def st2_def new_round_def thrower_def call_simps
        interrupt_def)
  have t2: "Game_turn P2 st2 = Inr st3"
    by (simp add: Game_turn_def Game_report_eq st0_def st2_def st3_def new_round_def
        thrower_def shooter_def call_simps scripted_player_simps reraised_def bomb g_def
        scripted_game_simps)
  have l3: "turn_loop Game_turn 1 P1 2 st3 = Inr st3"
    by (rule turn_loop_break) simp
  have f: "still_floating (board_of P1 st2)" "still_floating (board_of P2 st2)"
    by (simp_all add: st2_def fl1)
  have l2: "turn_loop Game_turn 1 P2 1 st2 = Inr st3"
    using l3 by (simp add: turn_loop_step [OF f(2)] t2)
  have l1: "turn_loop Game_turn 1 P1 0 st2 = Inr st3"
    using l2 by (simp add: turn_loop_step [OF f(1)] t1)
  have b: "Game_play_boards g P1 st0 = Inr st3"
    using l1 by (simp add: Game_play_boards_def s1 s2 g_def scripted_game_simps)
  have sc: "scoring st3 = (1, 1)"
    by (simp add: scoring_table st3_def st0_def new_round_def fl1 fl2)
  show ?thesis
    using n1 n2 b sc
    by (simp add: Game_play_round_def st0_def g_def thrower_def shooter_def)
qed

section \<open>The delayed feedback\<close>




end
